theory Spec2Isabelle
  imports Main "HOL-Library.Word" "HOL-Library.Sublist"
begin

section \<open>The pre-push hook of Git LFS (commands/command\_pre\_push.go)\<close>

text \<open>
  The theory embeds the three functions of the file: \<open>decodeRefs\<close>,
  \<open>prePushCheckForMissingObjects\<close> and \<open>prePushCommand\<close>. Everything the
  functions call in package \<open>lfs\<close> (the pointer scanner, the local object store, the
  check queue, the upload queue, the job factory) is a field of the record \<open>env\<close>; every
  call of the source that has an effect appends an \<open>event\<close> to a log, in program order.
\<close>

subsection \<open>Data\<close>

type_synonym int64 = "64 word"

text \<open>The fields of \<open>lfs.WrappedPointer\<close> that the file reads.\<close>

record WrappedPointer =
  Name :: string
  Oid :: string
  Size :: int64

text \<open>
  A Go \<open>error\<close> value. The file tells two dynamic types apart (line 110): a
  \<open>*lfs.CleanedPointerError\<close>, of which it reads \<open>Pointer.Oid\<close>, and anything else.
  \<open>errorsNew s\<close> is \<open>errors.New(s)\<close> and stands for every error of another type, with
  its text. The second field of \<open>CleanedPointerError\<close> is the text of its
  \<open>Error()\<close> method.
\<close>

datatype error = errorsNew string | CleanedPointerError string string

fun errorText :: "error \<Rightarrow> string" where
  "errorText (errorsNew s) = s"
| "errorText (CleanedPointerError oid s) = s"

text \<open>
  \<open>lfs.WrappedError\<close>: the fields \<open>Err\<close> and \<open>Panic\<close>, and the results of its methods
  \<open>Error()\<close> and \<open>Get(key)\<close> (the value as \<open>%s\<close> prints it).
\<close>

record WrappedError =
  Err :: error
  Panic :: bool
  ErrorMsg :: string
  Get :: "string \<Rightarrow> string"

text \<open>
  The collaborators and the two flags the run reads. \<open>'u\<close> is \<open>*lfs.Uploadable\<close>.
  \<open>CheckQueueErrors n size dryRun jobs\<close> is what \<open>Errors()\<close> returns after \<open>Wait()\<close> on
  the queue \<open>lfs.NewCheckQueue(n, size, dryRun)\<close> to which \<open>jobs\<close> were added in this
  order; \<open>UploadQueueErrors\<close> likewise for \<open>lfs.NewUploadQueue\<close>.
\<close>

record 'u env =
  Debugging :: bool
  prePushDryRun :: bool
  Stdin :: "error + string"
  ScanRefs :: "string \<Rightarrow> string \<Rightarrow> error + WrappedPointer list"
  ObjectExistsOfSize :: "string \<Rightarrow> int64 \<Rightarrow> bool"
  CheckQueueErrors :: "nat \<Rightarrow> int64 \<Rightarrow> bool \<Rightarrow> WrappedPointer list \<Rightarrow> WrappedError list"
  NewUploadable :: "string \<Rightarrow> string \<Rightarrow> WrappedError + 'u"
  UploadQueueErrors :: "nat \<Rightarrow> int64 \<Rightarrow> bool \<Rightarrow> 'u list \<Rightarrow> WrappedError list"

text \<open>The calls with an effect, as the log records them.\<close>

datatype 'u event =
    EvPrint string "string list"
  | EvError string
  | EvLoggedError error string
  | EvSetCurrentRemote string
  | EvReadStdin
  | EvScanRefs string string
  | EvObjectExistsOfSize string int64
  | EvNewCheckQueue nat int64 bool
  | EvCheckQueueAdd WrappedPointer
  | EvCheckQueueWait
  | EvNewUploadQueue nat int64 bool
  | EvNewUploadable string string
  | EvUploadQueueAdd 'u
  | EvUploadQueueWait

text \<open>
  How \<open>prePushCommand\<close> ends. \<open>Return\<close>: the function returns to its caller (the
  command succeeded, exit status 0). \<open>OsExit n\<close>: the call \<open>os.Exit(n)\<close>.

  Modelled from the spec: the helpers \<open>Exit(format, args...)\<close> and
  \<open>Panic(err, format, args...)\<close> of package \<open>commands\<close> are defined outside this file.
  By the specification (4.4, 7 and 9) both end the process at once: \<open>ExitCall\<close> reports
  the formatted message, \<open>PanicCall\<close> the error with the message. The exit status they
  choose is not modelled.
\<close>

datatype outcome =
    Return
  | OsExit int
  | ExitCall string "string list"
  | PanicCall error string

fun exitStatus :: "outcome \<Rightarrow> int option" where
  "exitStatus Return = Some 0"
| "exitStatus (OsExit n) = Some n"
| "exitStatus (ExitCall f as) = None"
| "exitStatus (PanicCall e f) = None"

subsection \<open>Constants and formatting\<close>

definition prePushDeleteBranch :: string where
  "prePushDeleteBranch = ''(delete)''"

definition prePushMissingErrMsg :: string where
  "prePushMissingErrMsg =
     ''%s is an LFS pointer to %s, which does not exist in .git/lfs/objects.''
     @ [CHR 0x0A, CHR 0x0A] @ ''Run '' @ [CHR 0x27] @ ''git lfs fsck'' @ [CHR 0x27]
     @ '' to verify Git LFS objects.''"

definition usageMsg :: string where
  "usageMsg = ''This should be run through Git'' @ [CHR 0x27]
     @ ''s pre-push hook.  Run '' @ [CHR 0x60] @ ''git lfs update'' @ [CHR 0x60]
     @ '' to install it.''"

text \<open>
  \<open>fmt.Sprintf\<close> with string arguments, for formats whose verbs are \<open>%s\<close> and
  \<open>%%\<close> (the only ones in this file): \<open>%s\<close> takes the next argument, or prints
  \<open>%!s(MISSING)\<close> when none is left; arguments left over are reported at the end.
\<close>

fun extraArgs :: "string list \<Rightarrow> string" where
  "extraArgs [] = []"
| "extraArgs [a] = ''string='' @ a"
| "extraArgs (a # b # bs) = ''string='' @ a @ '', '' @ extraArgs (b # bs)"

fun Sprintf :: "string \<Rightarrow> string list \<Rightarrow> string" where
  "Sprintf [] [] = []"
| "Sprintf [] (a # as) = ''%!(EXTRA '' @ extraArgs (a # as) @ '')''"
| "Sprintf [c] as = (if c = CHR ''%'' then ''%!(NOVERB)'' @ Sprintf [] as else c # Sprintf [] as)"
| "Sprintf (c # d # cs) as =
     (if c = CHR ''%'' then
        (if d = CHR ''s'' then
           (case as of [] \<Rightarrow> ''%!s(MISSING)'' @ Sprintf cs []
                     | a # as' \<Rightarrow> a @ Sprintf cs as')
         else if d = CHR ''%'' then CHR ''%'' # Sprintf cs as
         else c # Sprintf (d # cs) as)
      else c # Sprintf (d # cs) as)"

subsection \<open>decodeRefs\<close>

text \<open>
  \<open>strings.TrimSpace\<close> removes the leading and the trailing white space, as Unicode
  defines it. A Go string is a byte sequence in UTF-8, so the white-space code points are
  the byte sequences below: U+0009 to U+000D, U+0020, U+0085, U+00A0, U+1680, U+2000 to
  U+200A, U+2028, U+2029, U+202F, U+205F and U+3000.
\<close>

definition spaceRunes :: "string list" where
  "spaceRunes =
    [[CHR 0x09], [CHR 0x0A], [CHR 0x0B], [CHR 0x0C], [CHR 0x0D], [CHR 0x20],
     [CHR 0xC2, CHR 0x85], [CHR 0xC2, CHR 0xA0],
     [CHR 0xE1, CHR 0x9A, CHR 0x80],
     [CHR 0xE2, CHR 0x80, CHR 0x80], [CHR 0xE2, CHR 0x80, CHR 0x81],
     [CHR 0xE2, CHR 0x80, CHR 0x82], [CHR 0xE2, CHR 0x80, CHR 0x83],
     [CHR 0xE2, CHR 0x80, CHR 0x84], [CHR 0xE2, CHR 0x80, CHR 0x85],
     [CHR 0xE2, CHR 0x80, CHR 0x86], [CHR 0xE2, CHR 0x80, CHR 0x87],
     [CHR 0xE2, CHR 0x80, CHR 0x88], [CHR 0xE2, CHR 0x80, CHR 0x89],
     [CHR 0xE2, CHR 0x80, CHR 0x8A],
     [CHR 0xE2, CHR 0x80, CHR 0xA8], [CHR 0xE2, CHR 0x80, CHR 0xA9],
     [CHR 0xE2, CHR 0x80, CHR 0xAF],
     [CHR 0xE2, CHR 0x81, CHR 0x9F],
     [CHR 0xE3, CHR 0x80, CHR 0x80]]"

text \<open>The white-space runes a string starts with, and those it ends with.\<close>

definition leadingSpace :: "string \<Rightarrow> string list" where
  "leadingSpace s = filter (\<lambda>w. prefix w s) spaceRunes"

definition trailingSpace :: "string \<Rightarrow> string list" where
  "trailingSpace s = filter (\<lambda>w. suffix w s) spaceRunes"

function TrimLeftSpace :: "string \<Rightarrow> string" where
  "TrimLeftSpace s =
     (case leadingSpace s of [] \<Rightarrow> s | w # ws \<Rightarrow> TrimLeftSpace (drop (length w) s))"
  by pat_completeness auto
termination
proof (relation "measure length")
  show "wf (measure length)" by simp
next
  fix s :: string and w ws
  assume "leadingSpace s = w # ws"
  then have "w \<in> set (leadingSpace s)" by simp
  then have w: "w \<in> set spaceRunes" and p: "prefix w s"
    by (auto simp: leadingSpace_def)
  from w have "w \<noteq> []" by (auto simp: spaceRunes_def)
  moreover from p have "length w \<le> length s" by (rule prefix_length_le)
  ultimately show "(drop (length w) s, s) \<in> measure length" by (cases w) auto
qed

function TrimRightSpace :: "string \<Rightarrow> string" where
  "TrimRightSpace s =
     (case trailingSpace s of [] \<Rightarrow> s
      | w # ws \<Rightarrow> TrimRightSpace (take (length s - length w) s))"
  by pat_completeness auto
termination
proof (relation "measure length")
  show "wf (measure length)" by simp
next
  fix s :: string and w ws
  assume "trailingSpace s = w # ws"
  then have "w \<in> set (trailingSpace s)" by simp
  then have w: "w \<in> set spaceRunes" and p: "suffix w s"
    by (auto simp: trailingSpace_def)
  from w have "w \<noteq> []" by (auto simp: spaceRunes_def)
  moreover from p have "length w \<le> length s" by (rule suffix_length_le)
  ultimately show "(take (length s - length w) s, s) \<in> measure length" by (cases w) auto
qed

declare TrimLeftSpace.simps [simp del] TrimRightSpace.simps [simp del]

definition TrimSpace :: "string \<Rightarrow> string" where
  "TrimSpace s = TrimRightSpace (TrimLeftSpace s)"

text \<open>
  \<open>strings.Split(s, sep)\<close> for a separator of one byte (the file passes \<open>" "\<close>): the
  pieces between the occurrences of the separator, one more than there are occurrences.
  \<open>splitFrom\<close> carries the piece read so far.
\<close>

fun splitFrom :: "string \<Rightarrow> char \<Rightarrow> string \<Rightarrow> string list" where
  "splitFrom [] sep piece = [piece]"
| "splitFrom (c # cs) sep piece =
     (if c = sep then piece # splitFrom cs sep [] else splitFrom cs sep (piece @ [c]))"

definition Split :: "string \<Rightarrow> char \<Rightarrow> string list" where
  "Split s sep = splitFrom s sep []"

definition decodeRefs :: "string \<Rightarrow> string \<times> string" where
  "decodeRefs input =
     (let refs = Split (TrimSpace input) (CHR '' '');
          left = (if length refs > 1 then refs ! 1 else []);
          right = (if length refs > 3 then CHR ''^'' # refs ! 3 else [])
      in (left, right))"

subsection \<open>prePushCheckForMissingObjects\<close>

text \<open>
  A Go \<open>map[string]struct{}\<close> is a set of keys; \<open>None\<close> is the nil map, in which no key
  is found. The function returns the pair \<open>(objectsOnServer, e)\<close>; \<open>None\<close> in the
  second place is the nil error.
\<close>

type_synonym skipset = "string set option"

fun inSkip :: "skipset \<Rightarrow> string \<Rightarrow> bool" where
  "inSkip None oid = False"
| "inSkip (Some m) oid = (oid \<in> m)"

text \<open>
  The first loop (lines 142 to 150), with its three variables and the log.
\<close>

fun missingLoop ::
  "'u env \<Rightarrow> WrappedPointer list \<Rightarrow>
     WrappedPointer list \<times> int64 \<times> string set \<times> 'u event list \<Rightarrow>
     WrappedPointer list \<times> int64 \<times> string set \<times> 'u event list" where
  "missingLoop env [] st = st"
| "missingLoop env (pointer # rest) (missingLocalObjects, missingSize, skipObjects, log) =
     (if \<not> ObjectExistsOfSize env (Oid pointer) (Size pointer) then
        missingLoop env rest
          (missingLocalObjects @ [pointer], missingSize + Size pointer,
           insert (Oid pointer) skipObjects,
           log @ [EvObjectExistsOfSize (Oid pointer) (Size pointer)])
      else
        missingLoop env rest
          (missingLocalObjects, missingSize, skipObjects,
           log @ [EvObjectExistsOfSize (Oid pointer) (Size pointer)]))"

text \<open>The second loop (lines 156 to 158): one job per locally missing pointer.\<close>

fun addCheckables :: "WrappedPointer list \<Rightarrow> 'u event list \<Rightarrow> 'u event list" where
  "addCheckables [] log = log"
| "addCheckables (p # ps) log = addCheckables ps (log @ [EvCheckQueueAdd p])"

text \<open>The third loop (lines 163 to 168): the combined message.\<close>

fun combineMsgs :: "WrappedError list \<Rightarrow> string \<Rightarrow> string" where
  "combineMsgs [] combinedMsg = combinedMsg"
| "combineMsgs (wrerr # rest) combinedMsg =
     (let oid = Get wrerr ''oid'';
          name = Get wrerr ''name''
      in combineMsgs rest
           (combinedMsg @ Sprintf prePushMissingErrMsg [name, oid] @ [CHR 0x0A]))"

definition prePushCheckForMissingObjects ::
  "'u env \<Rightarrow> WrappedPointer list \<Rightarrow> 'u event list \<Rightarrow>
     skipset \<times> error option \<times> 'u event list" where
  "prePushCheckForMissingObjects env pointers log0 =
     (case missingLoop env pointers ([], 0, {}, log0) of
        (missingLocalObjects, missingSize, skipObjects, log1) \<Rightarrow>
          if length missingLocalObjects = 0 then (None, None, log1)
          else
            let log2 = log1 @ [EvNewCheckQueue (length missingLocalObjects) missingSize False];
                log3 = addCheckables missingLocalObjects log2 @ [EvCheckQueueWait];
                errs = CheckQueueErrors env (length missingLocalObjects) missingSize False
                         missingLocalObjects
            in if length errs > 0 then
                 (None, Some (errorsNew (combineMsgs errs [])), log3)
               else (Some skipObjects, None, log3))"

subsection \<open>prePushCommand\<close>

text \<open>Lines 78 to 81: the total size, in 64-bit arithmetic.\<close>

fun totalSizeLoop :: "WrappedPointer list \<Rightarrow> int64 \<Rightarrow> int64" where
  "totalSizeLoop [] totalSize = totalSize"
| "totalSizeLoop (p # ps) totalSize = totalSizeLoop ps (totalSize + Size p)"

text \<open>
  Lines 97 to 120: the upload loop. Its state is the list of jobs added to the upload
  queue and the log; the skip-set is read and never written. The first component of the
  result is \<open>Some\<close> of how the process ended when a call of \<open>Exit\<close> or \<open>Panic\<close> ended it
  inside the loop.
\<close>

fun uploadLoop ::
  "'u env \<Rightarrow> skipset \<Rightarrow> WrappedPointer list \<Rightarrow> 'u list \<times> 'u event list \<Rightarrow>
     outcome option \<times> 'u list \<times> 'u event list" where
  "uploadLoop env skipObjects [] (jobs, log) = (None, jobs, log)"
| "uploadLoop env skipObjects (pointer # rest) (jobs, log) =
     (if prePushDryRun env then
        uploadLoop env skipObjects rest (jobs, log @ [EvPrint ''push %s'' [Name pointer]])
      else if inSkip skipObjects (Oid pointer) then
        uploadLoop env skipObjects rest (jobs, log)
      else
        (case NewUploadable env (Oid pointer) (Name pointer) of
           Inl wErr \<Rightarrow>
             (case Err wErr of
                CleanedPointerError cleanOid txt \<Rightarrow>
                  (Some (ExitCall prePushMissingErrMsg [Name pointer, cleanOid]), jobs,
                   log @ [EvNewUploadable (Oid pointer) (Name pointer)])
              | errorsNew txt \<Rightarrow>
                  if Debugging env \<or> Panic wErr then
                    (Some (PanicCall (Err wErr) (ErrorMsg wErr)), jobs,
                     log @ [EvNewUploadable (Oid pointer) (Name pointer)])
                  else
                    (Some (ExitCall (ErrorMsg wErr) []), jobs,
                     log @ [EvNewUploadable (Oid pointer) (Name pointer)]))
         | Inr u \<Rightarrow>
             uploadLoop env skipObjects rest
               (jobs @ [u],
                log @ [EvNewUploadable (Oid pointer) (Name pointer), EvUploadQueueAdd u])))"

text \<open>Lines 124 to 130: every collected error is reported.\<close>

fun reportErrors :: "'u env \<Rightarrow> WrappedError list \<Rightarrow> 'u event list \<Rightarrow> 'u event list" where
  "reportErrors env [] log = log"
| "reportErrors env (err # rest) log =
     (if Debugging env \<or> Panic err then
        reportErrors env rest (log @ [EvLoggedError (Err err) (ErrorMsg err)])
      else reportErrors env rest (log @ [EvError (ErrorMsg err)]))"

text \<open>
  Lines 83 to 93: the pre-flight check. Under \<open>--dry-run\<close> the reconciler is not
  called and \<open>skipObjects\<close> stays the nil map.
\<close>

definition preflight ::
  "'u env \<Rightarrow> WrappedPointer list \<Rightarrow> 'u event list \<Rightarrow>
     skipset \<times> error option \<times> 'u event list" where
  "preflight env pointers log0 =
     (if \<not> prePushDryRun env then prePushCheckForMissingObjects env pointers log0
      else (None, None, log0))"

text \<open>Lines 78 to 135: what the command does with the pointers the scanner returned.\<close>

definition pushPointers ::
  "'u env \<Rightarrow> WrappedPointer list \<Rightarrow> 'u event list \<Rightarrow> outcome \<times> 'u event list" where
  "pushPointers env pointers log0 =
     (let totalSize = totalSizeLoop pointers 0 in
      case preflight env pointers log0 of
        (skipObjects, Some err, log1) \<Rightarrow>
          (PanicCall (errorsNew ''Missing objects to push'') (errorText err), log1)
      | (skipObjects, None, log1) \<Rightarrow>
          (case uploadLoop env skipObjects pointers
                  ([], log1 @ [EvNewUploadQueue (length pointers) totalSize (prePushDryRun env)]) of
             (Some stopped, jobs, log2) \<Rightarrow> (stopped, log2)
           | (None, jobs, log2) \<Rightarrow>
               if \<not> prePushDryRun env then
                 let errs = UploadQueueErrors env (length pointers) totalSize
                              (prePushDryRun env) jobs;
                     log3 = reportErrors env errs (log2 @ [EvUploadQueueWait])
                 in if length errs > 0 then (OsExit 2, log3) else (Return, log3)
               else (Return, log2)))"

text \<open>
  Lines 49 to 76: from the arguments to the scanner. \<open>Inl\<close> is a run that ends there,
  \<open>Inr\<close> carries the pointers the scanner returned.
\<close>

definition scanPhase ::
  "'u env \<Rightarrow> string list \<Rightarrow>
     (outcome \<times> 'u event list) + (WrappedPointer list \<times> 'u event list)" where
  "scanPhase env args =
     (case args of
        [] \<Rightarrow> Inl (OsExit 1, [EvPrint usageMsg []])
      | remote # others \<Rightarrow>
          (case Stdin env of
             Inl err \<Rightarrow>
               Inl (PanicCall err ''Error reading refs on stdin'',
                    [EvSetCurrentRemote remote, EvReadStdin])
           | Inr refsData \<Rightarrow>
               if length refsData = 0 then
                 Inl (Return, [EvSetCurrentRemote remote, EvReadStdin])
               else
                 (case decodeRefs refsData of
                    (left, right) \<Rightarrow>
                      if left = prePushDeleteBranch then
                        Inl (Return, [EvSetCurrentRemote remote, EvReadStdin])
                      else
                        (case ScanRefs env left right of
                           Inl err \<Rightarrow>
                             Inl (PanicCall err ''Error scanning for Git LFS files'',
                                  [EvSetCurrentRemote remote, EvReadStdin,
                                   EvScanRefs left right])
                         | Inr pointers \<Rightarrow>
                             Inr (pointers,
                                  [EvSetCurrentRemote remote, EvReadStdin,
                                   EvScanRefs left right])))))"

definition prePushCommand :: "'u env \<Rightarrow> string list \<Rightarrow> outcome \<times> 'u event list" where
  "prePushCommand env args =
     (case scanPhase env args of
        Inl ended \<Rightarrow> ended
      | Inr (pointers, log) \<Rightarrow> pushPointers env pointers log)"

subsection \<open>Notions the properties are stated with\<close>

text \<open>A pointer is locally missing when the store has no object of its oid and size.\<close>

definition locallyMissing :: "'u env \<Rightarrow> WrappedPointer \<Rightarrow> bool" where
  "locallyMissing env p = (\<not> ObjectExistsOfSize env (Oid p) (Size p))"

text \<open>The fixed template, filled in with a name and an oid.\<close>

definition missingObjectMsg :: "string \<Rightarrow> string \<Rightarrow> string" where
  "missingObjectMsg name oid =
     name @ '' is an LFS pointer to '' @ oid
     @ '', which does not exist in .git/lfs/objects.''
     @ [CHR 0x0A, CHR 0x0A] @ ''Run '' @ [CHR 0x27] @ ''git lfs fsck'' @ [CHR 0x27]
     @ '' to verify Git LFS objects.''"

text \<open>How one collected upload error is reported (lines 125 to 129).\<close>

definition reportEvent :: "'u env \<Rightarrow> WrappedError \<Rightarrow> 'u event" where
  "reportEvent env err =
     (if Debugging env \<or> Panic err then EvLoggedError (Err err) (ErrorMsg err)
      else EvError (ErrorMsg err))"

text \<open>Kinds of events.\<close>

fun isLocalCheck :: "'u event \<Rightarrow> bool" where
  "isLocalCheck (EvObjectExistsOfSize oid sz) = True"
| "isLocalCheck ev = False"

fun isRemoteCheck :: "'u event \<Rightarrow> bool" where
  "isRemoteCheck (EvNewCheckQueue n sz dry) = True"
| "isRemoteCheck (EvCheckQueueAdd p) = True"
| "isRemoteCheck EvCheckQueueWait = True"
| "isRemoteCheck ev = False"

fun isUploadJob :: "'u event \<Rightarrow> bool" where
  "isUploadJob (EvNewUploadable oid name) = True"
| "isUploadJob (EvUploadQueueAdd u) = True"
| "isUploadJob ev = False"

fun isNotice :: "'u event \<Rightarrow> bool" where
  "isNotice (EvPrint format args) = True"
| "isNotice ev = False"

subsection \<open>Example runs\<close>

text \<open>
  An environment for the scenarios of the specification: the scanner returns
  \<open>scanned\<close>, the local store holds the oids \<open>localOids\<close>, the remote check fails for the
  oids \<open>absentOids\<close> (with the failing pointer's oid and name in the error's context),
  job construction fails with a \<open>CleanedPointerError\<close> for the oids \<open>cleanedOids\<close>, and
  the upload of the jobs \<open>failingJobs\<close> fails. A job is named by its oid.
\<close>

definition checkError :: "WrappedPointer \<Rightarrow> WrappedError" where
  "checkError p =
     \<lparr>Err = errorsNew ''object not found'', Panic = False,
      ErrorMsg = ''object not found'',
      Get = (\<lambda>key. if key = ''oid'' then Oid p else if key = ''name'' then Name p else [])\<rparr>"

definition uploadError :: "string \<Rightarrow> WrappedError" where
  "uploadError job =
     \<lparr>Err = errorsNew ''upload failed'', Panic = False,
      ErrorMsg = ''upload failed: '' @ job, Get = (\<lambda>key. [])\<rparr>"

definition cleanedError :: "string \<Rightarrow> WrappedError" where
  "cleanedError oid =
     \<lparr>Err = CleanedPointerError oid ''cleaned pointer'', Panic = False,
      ErrorMsg = ''cleaned pointer'', Get = (\<lambda>key. [])\<rparr>"

definition exampleEnv ::
  "bool \<Rightarrow> string \<Rightarrow> WrappedPointer list \<Rightarrow> string list \<Rightarrow> string list \<Rightarrow>
     string list \<Rightarrow> string list \<Rightarrow> string env" where
  "exampleEnv dryRun input scanned localOids absentOids cleanedOids failingJobs =
     \<lparr>Debugging = False, prePushDryRun = dryRun, Stdin = Inr input,
      ScanRefs = (\<lambda>left right. Inr scanned),
      ObjectExistsOfSize = (\<lambda>oid sz. oid \<in> set localOids),
      CheckQueueErrors =
        (\<lambda>n sz dry jobs. map checkError (filter (\<lambda>p. Oid p \<in> set absentOids) jobs)),
      NewUploadable =
        (\<lambda>oid name. if oid \<in> set cleanedOids then Inl (cleanedError oid) else Inr oid),
      UploadQueueErrors =
        (\<lambda>n sz dry jobs. map uploadError (filter (\<lambda>j. j \<in> set failingJobs) jobs))\<rparr>"

definition exampleLine :: string where
  "exampleLine = ''refs/heads/main abc123 refs/heads/main def456''"

definition fileBin :: WrappedPointer where
  "fileBin = \<lparr>Name = ''file.bin'', Oid = ''aaa'', Size = 100\<rparr>"

definition bigBin :: WrappedPointer where
  "bigBin = \<lparr>Name = ''big.bin'', Oid = ''bbb'', Size = 500\<rparr>"

definition goneBin :: WrappedPointer where
  "goneBin = \<lparr>Name = ''gone.bin'', Oid = ''ccc'', Size = 10\<rparr>"

text \<open>
  The line Git writes to the hook when a branch is deleted: the local ref is
  \<open>(delete)\<close> and the local sha1 is forty zeros.
\<close>

definition deleteLine :: string where
  "deleteLine =
     ''(delete) 0000000000000000000000000000000000000000 refs/heads/topic 1a2b3c''"

section \<open>Properties\<close>

subsection \<open>The loops in closed form\<close>

lemma Sprintf_missing:
  "Sprintf prePushMissingErrMsg [name, oid] = missingObjectMsg name oid"
  by (simp add: prePushMissingErrMsg_def missingObjectMsg_def)

lemma missingLoop_eq:
  "missingLoop env ps (m, sz, sk, lg) =
     (m @ filter (locallyMissing env) ps,
      sz + sum_list (map Size (filter (locallyMissing env) ps)),
      sk \<union> Oid ` set (filter (locallyMissing env) ps),
      lg @ map (\<lambda>p. EvObjectExistsOfSize (Oid p) (Size p)) ps)"
  by (induction ps arbitrary: m sz sk lg) (auto simp: locallyMissing_def)

lemma addCheckables_eq: "addCheckables ps lg = lg @ map EvCheckQueueAdd ps"
  by (induction ps arbitrary: lg) auto

lemma combineMsgs_eq:
  "combineMsgs errs acc =
     acc @ concat (map (\<lambda>e. missingObjectMsg (Get e ''name'') (Get e ''oid'') @ [CHR 0x0A]) errs)"
  by (induction errs arbitrary: acc) (auto simp: Sprintf_missing Let_def)

lemma totalSizeLoop_eq: "totalSizeLoop ps t = t + sum_list (map Size ps)"
  by (induction ps arbitrary: t) (auto simp: add.assoc)

lemma reportErrors_eq: "reportErrors env errs lg = lg @ map (reportEvent env) errs"
  by (induction errs arbitrary: lg) (auto simp: reportEvent_def)

lemma uploadLoop_dry:
  "prePushDryRun env \<Longrightarrow>
   uploadLoop env skip ps (jobs, lg) =
     (None, jobs, lg @ map (\<lambda>p. EvPrint ''push %s'' [Name p]) ps)"
  by (induction ps arbitrary: lg) auto

lemma uploadLoop_filter:
  "\<not> prePushDryRun env \<Longrightarrow>
   uploadLoop env skip ps st =
   uploadLoop env skip (filter (\<lambda>p. \<not> inSkip skip (Oid p)) ps) st"
  by (induction env skip ps st rule: uploadLoop.induct)
     (auto split: sum.splits error.splits)

lemma uploadLoop_append:
  "uploadLoop env skip before st = (None, jobs, lg) \<Longrightarrow>
   uploadLoop env skip (before @ rest) st = uploadLoop env skip rest (jobs, lg)"
  by (induction env skip before st rule: uploadLoop.induct)
     (auto split: sum.splits error.splits if_splits)

text \<open>The reconciler, with its loops in closed form.\<close>

lemma prePushCheck_eq:
  "prePushCheckForMissingObjects env ps lg0 =
    (let missing = filter (locallyMissing env) ps;
         lg1 = lg0 @ map (\<lambda>p. EvObjectExistsOfSize (Oid p) (Size p)) ps;
         lg3 = lg1 @ [EvNewCheckQueue (length missing) (sum_list (map Size missing)) False]
                 @ map EvCheckQueueAdd missing @ [EvCheckQueueWait];
         errs = CheckQueueErrors env (length missing) (sum_list (map Size missing)) False missing
     in if missing = [] then (None, None, lg1)
        else if errs \<noteq> [] then
          (None,
           Some (errorsNew (concat (map (\<lambda>e. missingObjectMsg (Get e ''name'') (Get e ''oid'')
                                            @ [CHR 0x0A]) errs))),
           lg3)
        else (Some (Oid ` set missing), None, lg3))"
  by (simp add: prePushCheckForMissingObjects_def missingLoop_eq addCheckables_eq
        combineMsgs_eq Let_def)

subsection \<open>Splitting and trimming\<close>

lemma splitFrom_no_sep:
  "sep \<notin> set t \<Longrightarrow> splitFrom t sep piece = [piece @ t]"
  by (induction t arbitrary: piece) auto

lemma splitFrom_token:
  "sep \<notin> set t \<Longrightarrow>
   splitFrom (t @ sep # rest) sep piece = (piece @ t) # splitFrom rest sep []"
  by (induction t arbitrary: piece) auto

lemma spaceRunes_inner:
  "w \<in> set spaceRunes \<Longrightarrow> CHR '' '' \<notin> set (tl w) \<and> CHR '' '' \<notin> set (butlast w)"
  by (auto simp: spaceRunes_def)

lemma leadingSpace_token:
  assumes "leadingSpace t = []" and "t \<noteq> []"
  shows "leadingSpace (t @ CHR '' '' # rest) = []"
proof -
  have "\<not> prefix w (t @ CHR '' '' # rest)" if w: "w \<in> set spaceRunes" for w
  proof
    assume p: "prefix w (t @ CHR '' '' # rest)"
    from assms(1) w have np: "\<not> prefix w t"
      by (auto simp: leadingSpace_def filter_empty_conv)
    with p obtain us where us: "w = t @ us" "prefix us (CHR '' '' # rest)"
      by (auto simp: prefix_append)
    with np have "us \<noteq> []" by auto
    with us(2) obtain us' where "us = CHR '' '' # us'" by (cases us) auto
    with us(1) assms(2) have "CHR '' '' \<in> set (tl w)" by (cases t) auto
    with spaceRunes_inner [OF w] show False by simp
  qed
  then show ?thesis by (auto simp: leadingSpace_def filter_empty_conv)
qed

lemma trailingSpace_token:
  assumes "trailingSpace t = []" and "t \<noteq> []"
  shows "trailingSpace (pre @ CHR '' '' # t) = []"
proof -
  have "\<not> suffix w (pre @ CHR '' '' # t)" if w: "w \<in> set spaceRunes" for w
  proof
    assume p: "suffix w (pre @ CHR '' '' # t)"
    from assms(1) w have np: "\<not> suffix w t"
      by (auto simp: trailingSpace_def filter_empty_conv)
    from p have "suffix w ((pre @ [CHR '' '']) @ t)" by simp
    with np obtain us where us: "w = us @ t" "suffix us (pre @ [CHR '' ''])"
      unfolding suffix_append by blast
    with np have "us \<noteq> []" by auto
    with us(2) obtain us' where "us = us' @ [CHR '' '']"
      by (cases us rule: rev_cases) (auto simp: suffix_def)
    with us(1) assms(2) have "CHR '' '' \<in> set (butlast w)"
      by (cases t rule: rev_cases) (auto simp: butlast_append)
    with spaceRunes_inner [OF w] show False by simp
  qed
  then show ?thesis by (auto simp: trailingSpace_def filter_empty_conv)
qed

lemma trailingSpace_newline: "trailingSpace (s @ [CHR 0x0A]) = [[CHR 0x0A]]"
  by (simp add: trailingSpace_def spaceRunes_def suffix_to_prefix)

lemma TrimRightSpace_newline: "TrimRightSpace (s @ [CHR 0x0A]) = TrimRightSpace s"
proof -
  have "TrimRightSpace (s @ [CHR 0x0A]) =
          TrimRightSpace (take (length (s @ [CHR 0x0A]) - length [CHR 0x0A]) (s @ [CHR 0x0A]))"
    by (subst TrimRightSpace.simps) (simp only: trailingSpace_newline list.case)
  then show ?thesis by simp
qed

lemma TrimSpace_line:
  assumes "leadingSpace t0 = []" "t0 \<noteq> []" "trailingSpace t3 = []" "t3 \<noteq> []"
  shows "TrimSpace (t0 @ CHR '' '' # mid @ CHR '' '' # t3)
           = t0 @ CHR '' '' # mid @ CHR '' '' # t3"
    and "TrimSpace (t0 @ CHR '' '' # mid @ CHR '' '' # t3 @ [CHR 0x0A])
           = t0 @ CHR '' '' # mid @ CHR '' '' # t3"
proof -
  let ?core = "t0 @ CHR '' '' # mid @ CHR '' '' # t3"
  have l: "leadingSpace (t0 @ CHR '' '' # r) = []" for r
    using assms(1,2) by (rule leadingSpace_token)
  have "trailingSpace ((t0 @ CHR '' '' # mid) @ CHR '' '' # t3) = []"
    using assms(3,4) by (rule trailingSpace_token)
  then have r: "trailingSpace ?core = []" by simp
  have tr: "TrimRightSpace ?core = ?core"
    by (subst TrimRightSpace.simps) (simp add: r)
  have tl: "TrimLeftSpace (t0 @ CHR '' '' # x) = t0 @ CHR '' '' # x" for x
    by (subst TrimLeftSpace.simps) (simp add: l)
  show "TrimSpace ?core = ?core"
    by (simp add: TrimSpace_def tl tr)
  have "TrimRightSpace (?core @ [CHR 0x0A]) = TrimRightSpace ?core"
    by (rule TrimRightSpace_newline)
  then have "TrimRightSpace (t0 @ CHR '' '' # mid @ CHR '' '' # t3 @ [CHR 0x0A]) = ?core"
    by (simp add: tr)
  then show "TrimSpace (t0 @ CHR '' '' # mid @ CHR '' '' # t3 @ [CHR 0x0A]) = ?core"
    by (simp add: TrimSpace_def tl)
qed

lemma Split_four:
  assumes "CHR '' '' \<notin> set t0" "CHR '' '' \<notin> set t1"
    and "CHR '' '' \<notin> set t2" "CHR '' '' \<notin> set t3"
  shows "Split (t0 @ CHR '' '' # (t1 @ CHR '' '' # t2) @ CHR '' '' # t3) (CHR '' '')
           = [t0, t1, t2, t3]"
  using assms by (simp add: Split_def splitFrom_token splitFrom_no_sep)

lemma decodeRefs_four:
  assumes "CHR '' '' \<notin> set t0" "CHR '' '' \<notin> set t1"
    and "CHR '' '' \<notin> set t2" "CHR '' '' \<notin> set t3"
    and "leadingSpace t0 = []" "t0 \<noteq> []" "trailingSpace t3 = []" "t3 \<noteq> []"
  shows "decodeRefs (t0 @ '' '' @ t1 @ '' '' @ t2 @ '' '' @ t3) = (t1, ''^'' @ t3)"
    and "decodeRefs (t0 @ '' '' @ t1 @ '' '' @ t2 @ '' '' @ t3 @ [CHR 0x0A])
           = (t1, ''^'' @ t3)"
proof -
  note ts = TrimSpace_line [OF assms(5-8), of "t1 @ CHR '' '' # t2"]
  note sp = Split_four [OF assms(1-4)]
  show "decodeRefs (t0 @ '' '' @ t1 @ '' '' @ t2 @ '' '' @ t3) = (t1, ''^'' @ t3)"
    using ts(1) sp by (simp add: decodeRefs_def Let_def)
  show "decodeRefs (t0 @ '' '' @ t1 @ '' '' @ t2 @ '' '' @ t3 @ [CHR 0x0A])
          = (t1, ''^'' @ t3)"
    using ts(2) sp by (simp add: decodeRefs_def Let_def)
qed

lemma decodeRefs_empty: "decodeRefs [] = ([], [])"
  by (simp add: decodeRefs_def Let_def TrimSpace_def TrimLeftSpace.simps
        TrimRightSpace.simps leadingSpace_def trailingSpace_def spaceRunes_def Split_def)

lemma decodeRefs_short:
  "length (Split (TrimSpace input) (CHR '' '')) < 2 \<Longrightarrow> decodeRefs input = ([], [])"
  by (simp add: decodeRefs_def Let_def)

lemma scanPhase_short:
  assumes "Stdin env = Inr input" "input \<noteq> []"
    and "length (Split (TrimSpace input) (CHR '' '')) < 2"
  shows "scanPhase env (remote # others) =
           (case ScanRefs env [] [] of
              Inl err \<Rightarrow> Inl (PanicCall err ''Error scanning for Git LFS files'',
                              [EvSetCurrentRemote remote, EvReadStdin, EvScanRefs [] []])
            | Inr pointers \<Rightarrow> Inr (pointers,
                              [EvSetCurrentRemote remote, EvReadStdin, EvScanRefs [] []]))"
  using assms by (simp add: scanPhase_def decodeRefs_short prePushDeleteBranch_def)

subsection \<open>Claims about decodeRefs\<close>

lemma prePushCommand_short:
  assumes "Stdin env = Inr input" "input \<noteq> []"
    and "length (Split (TrimSpace input) (CHR '' '')) < 2"
  shows "prePushCommand env (remote # others) =
           (case ScanRefs env [] [] of
              Inl err \<Rightarrow> (PanicCall err ''Error scanning for Git LFS files'',
                         [EvSetCurrentRemote remote, EvReadStdin, EvScanRefs [] []])
            | Inr pointers \<Rightarrow>
                pushPointers env pointers
                  [EvSetCurrentRemote remote, EvReadStdin, EvScanRefs [] []])"
  unfolding prePushCommand_def scanPhase_short [OF assms]
  by (simp split: sum.splits)

text \<open>
  Claim C8, as the code has it. The tokens of a line are the pieces of the trimmed line
  between single spaces. When there are four of them, \<open>decodeRefs\<close> returns the second
  token and the fourth token prefixed with \<open>^\<close>; in particular for a line built from
  four tokens that contain no space, the first not starting and the last not ending with
  white space, with or without a final newline. For the empty input it returns two empty
  strings. For an input with fewer than two tokens both endpoints are empty; the command
  has no test of an empty endpoint: it calls the scanner with the empty range, ends in
  \<open>Panic\<close> when the scanner returns an error, and otherwise goes on with the pointers the
  scanner returns as in any other run.
\<close>

theorem C8_decodeRefs:
  "(Split (TrimSpace input) (CHR '' '') = [r0, r1, r2, r3] \<longrightarrow>
      decodeRefs input = (r1, ''^'' @ r3))
   \<and> (CHR '' '' \<notin> set t0 \<and> CHR '' '' \<notin> set t1 \<and> CHR '' '' \<notin> set t2 \<and> CHR '' '' \<notin> set t3
        \<and> leadingSpace t0 = [] \<and> t0 \<noteq> [] \<and> trailingSpace t3 = [] \<and> t3 \<noteq> [] \<longrightarrow>
      decodeRefs (t0 @ '' '' @ t1 @ '' '' @ t2 @ '' '' @ t3) = (t1, ''^'' @ t3)
      \<and> decodeRefs (t0 @ '' '' @ t1 @ '' '' @ t2 @ '' '' @ t3 @ [CHR 0x0A]) = (t1, ''^'' @ t3))
   \<and> decodeRefs [] = ([], [])
   \<and> (length (Split (TrimSpace short) (CHR '' '')) < 2 \<longrightarrow>
        fst (decodeRefs short) = []
        \<and> (Stdin env = Inr short \<and> short \<noteq> [] \<longrightarrow>
             scanPhase env (remote # others) =
               (case ScanRefs env [] [] of
                  Inl err \<Rightarrow> Inl (PanicCall err ''Error scanning for Git LFS files'',
                              [EvSetCurrentRemote remote, EvReadStdin, EvScanRefs [] []])
                | Inr pointers \<Rightarrow> Inr (pointers,
                              [EvSetCurrentRemote remote, EvReadStdin, EvScanRefs [] []]))
             \<and> prePushCommand env (remote # others) =
               (case ScanRefs env [] [] of
                  Inl err \<Rightarrow> (PanicCall err ''Error scanning for Git LFS files'',
                             [EvSetCurrentRemote remote, EvReadStdin, EvScanRefs [] []])
                | Inr pointers \<Rightarrow>
                    pushPointers env pointers
                      [EvSetCurrentRemote remote, EvReadStdin, EvScanRefs [] []])))"
proof (intro conjI impI)
  assume "Split (TrimSpace input) (CHR '' '') = [r0, r1, r2, r3]"
  then show "decodeRefs input = (r1, ''^'' @ r3)"
    by (simp add: decodeRefs_def Let_def)
next
  assume h: "CHR '' '' \<notin> set t0 \<and> CHR '' '' \<notin> set t1 \<and> CHR '' '' \<notin> set t2 \<and> CHR '' '' \<notin> set t3
        \<and> leadingSpace t0 = [] \<and> t0 \<noteq> [] \<and> trailingSpace t3 = [] \<and> t3 \<noteq> []"
  then show "decodeRefs (t0 @ '' '' @ t1 @ '' '' @ t2 @ '' '' @ t3) = (t1, ''^'' @ t3)"
    by (intro decodeRefs_four(1)) simp_all
  from h show "decodeRefs (t0 @ '' '' @ t1 @ '' '' @ t2 @ '' '' @ t3 @ [CHR 0x0A]) = (t1, ''^'' @ t3)"
    by (intro decodeRefs_four(2)) simp_all
next
  show "decodeRefs [] = ([], [])" by (rule decodeRefs_empty)
next
  assume "length (Split (TrimSpace short) (CHR '' '')) < 2"
  then show "fst (decodeRefs short) = []" by (simp add: decodeRefs_short)
next
  assume "length (Split (TrimSpace short) (CHR '' '')) < 2" "Stdin env = Inr short \<and> short \<noteq> []"
  then show "scanPhase env (remote # others) =
               (case ScanRefs env [] [] of
                  Inl err \<Rightarrow> Inl (PanicCall err ''Error scanning for Git LFS files'',
                              [EvSetCurrentRemote remote, EvReadStdin, EvScanRefs [] []])
                | Inr pointers \<Rightarrow> Inr (pointers,
                              [EvSetCurrentRemote remote, EvReadStdin, EvScanRefs [] []]))"
    by (intro scanPhase_short) simp_all
next
  assume "length (Split (TrimSpace short) (CHR '' '')) < 2" "Stdin env = Inr short \<and> short \<noteq> []"
  then show "prePushCommand env (remote # others) =
               (case ScanRefs env [] [] of
                  Inl err \<Rightarrow> (PanicCall err ''Error scanning for Git LFS files'',
                             [EvSetCurrentRemote remote, EvReadStdin, EvScanRefs [] []])
                | Inr pointers \<Rightarrow>
                    pushPointers env pointers
                      [EvSetCurrentRemote remote, EvReadStdin, EvScanRefs [] []])"
    by (intro prePushCommand_short) simp_all
qed

lemma exampleLine_tokens:
  "Split (TrimSpace exampleLine) (CHR '' '') = [''refs/heads/main'', ''abc123'', ''refs/heads/main'', ''def456'']"
  unfolding exampleLine_def by code_simp

lemma example_token_ends:
  "leadingSpace ''refs/heads/main'' = [] \<and> trailingSpace ''def456'' = []"
  by code_simp

lemma example_short: "length (Split (TrimSpace ''deadbeef'') (CHR '' '')) < 2"
  by code_simp

theorem C8_decodeRefs_witness:
  "decodeRefs exampleLine = (''abc123'', ''^def456'')
   \<and> decodeRefs (exampleLine @ [CHR 0x0A]) = (''abc123'', ''^def456'')
   \<and> fst (decodeRefs ''deadbeef'') = []
   \<and> scanPhase (exampleEnv False ''deadbeef'' [] [] [] [] []) [''origin'', ''url''] =
       Inr ([], [EvSetCurrentRemote ''origin'', EvReadStdin, EvScanRefs [] []])
   \<and> prePushCommand (exampleEnv False ''deadbeef'' [] [] [] [] []) [''origin'', ''url''] =
       pushPointers (exampleEnv False ''deadbeef'' [] [] [] [] []) []
         [EvSetCurrentRemote ''origin'', EvReadStdin, EvScanRefs [] []]"
  using C8_decodeRefs [of exampleLine "''refs/heads/main''" "''abc123''" "''refs/heads/main''"
      "''def456''" "''refs/heads/main''" "''abc123''" "''refs/heads/main''" "''def456''"
      "''deadbeef''" "exampleEnv False ''deadbeef'' [] [] [] [] []" "''origin''" "[''url'']"]
    exampleLine_tokens example_token_ends example_short
  by (simp add: exampleLine_def exampleEnv_def)

lemma short_example_upload:
  "pushPointers (exampleEnv False ''deadbeef'' [fileBin] [''aaa''] [] [] []) [fileBin]
      [EvSetCurrentRemote ''origin'', EvReadStdin, EvScanRefs [] []]
     = (Return,
        [EvSetCurrentRemote ''origin'', EvReadStdin, EvScanRefs [] [],
         EvObjectExistsOfSize ''aaa'' 100, EvNewUploadQueue 1 100 False,
         EvNewUploadable ''aaa'' ''file.bin'', EvUploadQueueAdd ''aaa'', EvUploadQueueWait])"
  by (simp add: pushPointers_def preflight_def prePushCheck_eq Let_def locallyMissing_def
        exampleEnv_def fileBin_def)

text \<open>
  Claim C8 as stated fails in its last part: a line of one token is not treated as nothing
  to scan. The scanner is called with the empty range; the pointer it returns is checked
  and uploaded, and an error it returns ends the run in \<open>Panic\<close>.
\<close>

theorem C8_short_line_is_scanned_counterexample:
  "length (Split (TrimSpace ''deadbeef'') (CHR '' '')) < 2
   \<and> fst (decodeRefs ''deadbeef'') = []
   \<and> prePushCommand (exampleEnv False ''deadbeef'' [fileBin] [''aaa''] [] [] [])
        [''origin'', ''url'']
     = (Return,
        [EvSetCurrentRemote ''origin'', EvReadStdin, EvScanRefs [] [],
         EvObjectExistsOfSize ''aaa'' 100, EvNewUploadQueue 1 100 False,
         EvNewUploadable ''aaa'' ''file.bin'', EvUploadQueueAdd ''aaa'', EvUploadQueueWait])
   \<and> prePushCommand
        ((exampleEnv False ''deadbeef'' [fileBin] [''aaa''] [] [] [])
           \<lparr>ScanRefs := (\<lambda>left right. Inl (errorsNew ''bad revision''))\<rparr>)
        [''origin'', ''url'']
     = (PanicCall (errorsNew ''bad revision'') ''Error scanning for Git LFS files'',
        [EvSetCurrentRemote ''origin'', EvReadStdin, EvScanRefs [] []])"
proof -
  have scan: "scanPhase (exampleEnv False ''deadbeef'' [fileBin] [''aaa''] [] [] [])
        [''origin'', ''url'']
      = Inr ([fileBin], [EvSetCurrentRemote ''origin'', EvReadStdin, EvScanRefs [] []])"
    using example_short
    by (simp add: scanPhase_def decodeRefs_short prePushDeleteBranch_def exampleEnv_def)
  have fail: "scanPhase
        ((exampleEnv False ''deadbeef'' [fileBin] [''aaa''] [] [] [])
           \<lparr>ScanRefs := (\<lambda>left right. Inl (errorsNew ''bad revision''))\<rparr>)
        [''origin'', ''url'']
      = Inl (PanicCall (errorsNew ''bad revision'') ''Error scanning for Git LFS files'',
             [EvSetCurrentRemote ''origin'', EvReadStdin, EvScanRefs [] []])"
    using example_short
    by (simp add: scanPhase_def decodeRefs_short prePushDeleteBranch_def exampleEnv_def)
  from example_short have "fst (decodeRefs ''deadbeef'') = []"
    by (simp add: decodeRefs_short)
  with example_short scan fail short_example_upload show ?thesis
    by (simp add: prePushCommand_def)
qed

subsection \<open>Claims about the reconciliation\<close>

lemma prePushCommand_scanned:
  "scanPhase env args = Inr (pointers, log0) \<Longrightarrow>
   prePushCommand env args = pushPointers env pointers log0"
  by (simp add: prePushCommand_def)

lemma scanPhase_log:
  "scanPhase env args = Inr (pointers, log0) \<Longrightarrow>
   \<exists>remote left right. log0 = [EvSetCurrentRemote remote, EvReadStdin, EvScanRefs left right]"
  by (auto simp: scanPhase_def split: list.splits sum.splits if_splits prod.splits)

lemma sublist_concat_map:
  "e \<in> set es \<Longrightarrow> sublist (f e) (concat (map f es))"
proof -
  assume "e \<in> set es"
  then obtain xs ys where "es = xs @ e # ys" by (auto dest: split_list)
  then have "concat (map f es) = concat (map f xs) @ f e @ concat (map f ys)" by simp
  then show ?thesis unfolding sublist_def by blast
qed

lemma pushPointers_check_failed:
  assumes "\<not> prePushDryRun env"
    and "missing = filter (locallyMissing env) pointers"
    and "errs = CheckQueueErrors env (length missing) (sum_list (map Size missing)) False missing"
    and "missing \<noteq> []" and "errs \<noteq> []"
  shows "pushPointers env pointers log0 =
     (PanicCall (errorsNew ''Missing objects to push'')
        (concat (map (\<lambda>e. missingObjectMsg (Get e ''name'') (Get e ''oid'') @ [CHR 0x0A]) errs)),
      log0 @ map (\<lambda>p. EvObjectExistsOfSize (Oid p) (Size p)) pointers
        @ [EvNewCheckQueue (length missing) (sum_list (map Size missing)) False]
        @ map EvCheckQueueAdd missing @ [EvCheckQueueWait])"
  using assms by (simp add: pushPointers_def preflight_def prePushCheck_eq Let_def)

text \<open>
  Claim C1. Take a run that is not a dry run and whose scanner returned \<open>pointers\<close>.
  When at least one pointer is locally missing and the remote check of the locally
  missing pointers reports at least one failure, the command ends in \<open>Panic\<close> with the
  error "Missing objects to push". The log ends with the wait on the check queue: no upload
  queue was created and no upload job was constructed or added. The message is the
  concatenation, over the failures the check queue reports, of the fixed template filled
  with the name and the oid the failure carries (the check queue puts the failing
  object's name and oid there), each followed by a newline; so it contains that line for
  every failure.
\<close>

theorem C1_missing_everywhere_aborts:
  assumes "scanPhase env args = Inr (pointers, log0)"
    and "\<not> prePushDryRun env"
    and "missing = filter (locallyMissing env) pointers"
    and "errs = CheckQueueErrors env (length missing) (sum_list (map Size missing)) False missing"
    and "missing \<noteq> []" and "errs \<noteq> []"
  shows "prePushCommand env args =
     (PanicCall (errorsNew ''Missing objects to push'')
        (concat (map (\<lambda>e. Sprintf prePushMissingErrMsg [Get e ''name'', Get e ''oid'']
                              @ [CHR 0x0A]) errs)),
      log0 @ map (\<lambda>p. EvObjectExistsOfSize (Oid p) (Size p)) pointers
        @ [EvNewCheckQueue (length missing) (sum_list (map Size missing)) False]
        @ map EvCheckQueueAdd missing @ [EvCheckQueueWait])
   \<and> \<not> list_ex isUploadJob (snd (prePushCommand env args))
   \<and> (\<forall>e \<in> set errs.
         sublist (missingObjectMsg (Get e ''name'') (Get e ''oid'') @ [CHR 0x0A])
           (concat (map (\<lambda>e. Sprintf prePushMissingErrMsg [Get e ''name'', Get e ''oid'']
                              @ [CHR 0x0A]) errs)))"
proof -
  let ?line = "\<lambda>e. missingObjectMsg (Get e ''name'') (Get e ''oid'') @ [CHR 0x0A]"
  have run: "prePushCommand env args =
     (PanicCall (errorsNew ''Missing objects to push'') (concat (map ?line errs)),
      log0 @ map (\<lambda>p. EvObjectExistsOfSize (Oid p) (Size p)) pointers
        @ [EvNewCheckQueue (length missing) (sum_list (map Size missing)) False]
        @ map EvCheckQueueAdd missing @ [EvCheckQueueWait])"
    using prePushCommand_scanned [OF assms(1)] pushPointers_check_failed [OF assms(2-6)]
    by simp
  from scanPhase_log [OF assms(1)] obtain remote left right
    where log0: "log0 = [EvSetCurrentRemote remote, EvReadStdin, EvScanRefs left right]"
    by blast
  have msg: "prePushCommand env args =
     (PanicCall (errorsNew ''Missing objects to push'')
        (concat (map (\<lambda>e. Sprintf prePushMissingErrMsg [Get e ''name'', Get e ''oid'']
                              @ [CHR 0x0A]) errs)),
      log0 @ map (\<lambda>p. EvObjectExistsOfSize (Oid p) (Size p)) pointers
        @ [EvNewCheckQueue (length missing) (sum_list (map Size missing)) False]
        @ map EvCheckQueueAdd missing @ [EvCheckQueueWait])"
    using run by (simp add: Sprintf_missing)
  have nojob: "\<not> list_ex isUploadJob (snd (prePushCommand env args))"
    by (auto simp: run log0 list_ex_iff)
  have lines: "sublist (?line e) (concat (map ?line errs))" if e: "e \<in> set errs" for e
    using sublist_concat_map [OF e, of ?line] by simp
  from msg nojob lines show ?thesis by (simp add: Sprintf_missing)
qed

lemma exampleLine_nonempty: "exampleLine \<noteq> []"
  by (simp add: exampleLine_def)

lemma example_scan:
  "scanPhase (exampleEnv dry exampleLine scanned locals absent cleaned failing)
       [''origin'', ''url'']
     = Inr (scanned, [EvSetCurrentRemote ''origin'', EvReadStdin,
                      EvScanRefs ''abc123'' ''^def456''])"
  by (simp add: scanPhase_def exampleEnv_def exampleLine_tokens exampleLine_nonempty
        decodeRefs_def Let_def prePushDeleteBranch_def)

theorem C1_missing_everywhere_aborts_witness:
  "\<not> prePushDryRun (exampleEnv False exampleLine [goneBin] [] [''ccc''] [] [])
   \<and> filter (locallyMissing (exampleEnv False exampleLine [goneBin] [] [''ccc''] [] []))
        [goneBin] = [goneBin]
   \<and> length (CheckQueueErrors (exampleEnv False exampleLine [goneBin] [] [''ccc''] [] [])
        1 10 False [goneBin]) = 1
   \<and> prePushCommand (exampleEnv False exampleLine [goneBin] [] [''ccc''] [] [])
       [''origin'', ''url'']
     = (PanicCall (errorsNew ''Missing objects to push'')
          (''gone.bin is an LFS pointer to ccc, which does not exist in .git/lfs/objects.''
            @ [CHR 0x0A, CHR 0x0A] @ ''Run '' @ [CHR 0x27] @ ''git lfs fsck'' @ [CHR 0x27]
            @ '' to verify Git LFS objects.'' @ [CHR 0x0A]),
        [EvSetCurrentRemote ''origin'', EvReadStdin, EvScanRefs ''abc123'' ''^def456'',
         EvObjectExistsOfSize ''ccc'' 10, EvNewCheckQueue 1 10 False,
         EvCheckQueueAdd goneBin, EvCheckQueueWait])"
  using C1_missing_everywhere_aborts [OF example_scan _ refl refl,
      of False "[goneBin]" "[]" "[''ccc'']" "[]" "[]"]
  by (simp add: exampleEnv_def locallyMissing_def goneBin_def checkError_def
        prePushMissingErrMsg_def)

lemma prePushCheck_none_missing:
  assumes "prePushCheckForMissingObjects env pointers log0 = (skipObjects, None, log)"
    and "filter (locallyMissing env) pointers = []"
  shows "skipObjects = None
            \<and> log = log0 @ map (\<lambda>p. EvObjectExistsOfSize (Oid p) (Size p)) pointers"
  using assms unfolding prePushCheck_eq Let_def by simp

lemma prePushCheck_all_remote:
  assumes "prePushCheckForMissingObjects env pointers log0 = (skipObjects, None, log)"
    and "filter (locallyMissing env) pointers \<noteq> []"
  shows "skipObjects = Some (Oid ` set (filter (locallyMissing env) pointers))
      \<and> CheckQueueErrors env (length (filter (locallyMissing env) pointers))
           (sum_list (map Size (filter (locallyMissing env) pointers))) False
           (filter (locallyMissing env) pointers) = []
      \<and> log = log0 @ map (\<lambda>p. EvObjectExistsOfSize (Oid p) (Size p)) pointers
                @ [EvNewCheckQueue (length (filter (locallyMissing env) pointers))
                     (sum_list (map Size (filter (locallyMissing env) pointers))) False]
                @ map EvCheckQueueAdd (filter (locallyMissing env) pointers) @ [EvCheckQueueWait]"
proof (cases "CheckQueueErrors env (length (filter (locallyMissing env) pointers))
           (sum_list (map Size (filter (locallyMissing env) pointers))) False
           (filter (locallyMissing env) pointers) = []")
  case True
  with assms show ?thesis unfolding prePushCheck_eq Let_def by simp
next
  case False
  with assms show ?thesis unfolding prePushCheck_eq Let_def by simp
qed

text \<open>
  Claim C3. When the reconciler returns without error, an oid is in the skip-set it returns
  exactly when some pointer with that oid is locally missing (no object of its oid and size
  in the local store). When there is such a pointer, one check job was added for every
  locally missing pointer, the queue was waited for and it reported no failure: every one
  of them was confirmed on the remote. When there is none, the skip-set is the nil map and
  no check queue was created. The skip-set is a value: the upload loop reads it and returns
  none, so that every pointer of the loop is tested against the set as the reconciler
  returned it.
\<close>

theorem C3_skipset_exact:
  assumes "prePushCheckForMissingObjects env pointers log0 = (skipObjects, None, log)"
    and "missing = filter (locallyMissing env) pointers"
  shows "(\<forall>oid. inSkip skipObjects oid \<longleftrightarrow> (\<exists>p \<in> set pointers. locallyMissing env p \<and> Oid p = oid))
     \<and> (missing \<noteq> [] \<longrightarrow>
          CheckQueueErrors env (length missing) (sum_list (map Size missing)) False missing = []
          \<and> log = log0 @ map (\<lambda>p. EvObjectExistsOfSize (Oid p) (Size p)) pointers
                @ [EvNewCheckQueue (length missing) (sum_list (map Size missing)) False]
                @ map EvCheckQueueAdd missing @ [EvCheckQueueWait])
     \<and> (missing = [] \<longrightarrow>
          skipObjects = None
          \<and> log = log0 @ map (\<lambda>p. EvObjectExistsOfSize (Oid p) (Size p)) pointers)
     \<and> (\<not> prePushDryRun env \<longrightarrow>
          uploadLoop env skipObjects rest st
            = uploadLoop env skipObjects (filter (\<lambda>p. \<not> inSkip skipObjects (Oid p)) rest) st)"
proof (intro conjI allI impI)
  fix oid
  show "inSkip skipObjects oid \<longleftrightarrow> (\<exists>p \<in> set pointers. locallyMissing env p \<and> Oid p = oid)"
  proof (cases "filter (locallyMissing env) pointers = []")
    case True
    from prePushCheck_none_missing [OF assms(1) True] have "skipObjects = None" by simp
    moreover from True have "\<forall>p \<in> set pointers. \<not> locallyMissing env p"
      by (simp add: filter_empty_conv)
    ultimately show ?thesis by auto
  next
    case False
    from prePushCheck_all_remote [OF assms(1) False]
    have "skipObjects = Some (Oid ` set (filter (locallyMissing env) pointers))" by simp
    then show ?thesis by auto
  qed
next
  assume "missing \<noteq> []"
  then have m: "filter (locallyMissing env) pointers \<noteq> []" unfolding assms(2) .
  from prePushCheck_all_remote [OF assms(1) m]
  show "CheckQueueErrors env (length missing) (sum_list (map Size missing)) False missing = []"
    and "log = log0 @ map (\<lambda>p. EvObjectExistsOfSize (Oid p) (Size p)) pointers
                @ [EvNewCheckQueue (length missing) (sum_list (map Size missing)) False]
                @ map EvCheckQueueAdd missing @ [EvCheckQueueWait]"
    unfolding assms(2) by blast+
next
  assume "missing = []"
  then have m: "filter (locallyMissing env) pointers = []" unfolding assms(2) .
  from prePushCheck_none_missing [OF assms(1) m]
  show "skipObjects = None"
    and "log = log0 @ map (\<lambda>p. EvObjectExistsOfSize (Oid p) (Size p)) pointers"
    by blast+
next
  assume "\<not> prePushDryRun env"
  then show "uploadLoop env skipObjects rest st
            = uploadLoop env skipObjects (filter (\<lambda>p. \<not> inSkip skipObjects (Oid p)) rest) st"
    by (rule uploadLoop_filter)
qed

lemma scenarioB_check:
  "prePushCheckForMissingObjects (exampleEnv False exampleLine [fileBin, bigBin] [''aaa''] [] [] [])
      [fileBin, bigBin] []
    = (Some {''bbb''}, None,
       [EvObjectExistsOfSize ''aaa'' 100, EvObjectExistsOfSize ''bbb'' 500,
        EvNewCheckQueue 1 500 False, EvCheckQueueAdd bigBin, EvCheckQueueWait])"
  by (simp add: prePushCheck_eq Let_def exampleEnv_def locallyMissing_def
        bigBin_def fileBin_def)

theorem C3_skipset_exact_witness:
  "prePushCheckForMissingObjects
       (exampleEnv False exampleLine [fileBin, bigBin] [''aaa''] [] [] [])
       [fileBin, bigBin] ([] :: string event list)
     = (Some {''bbb''}, None,
        [EvObjectExistsOfSize ''aaa'' 100, EvObjectExistsOfSize ''bbb'' 500,
         EvNewCheckQueue 1 500 False, EvCheckQueueAdd bigBin, EvCheckQueueWait])
   \<and> inSkip (Some {''bbb''}) ''bbb'' \<and> \<not> inSkip (Some {''bbb''}) ''aaa''
   \<and> locallyMissing (exampleEnv False exampleLine [fileBin, bigBin] [''aaa''] [] [] []) bigBin
   \<and> \<not> locallyMissing (exampleEnv False exampleLine [fileBin, bigBin] [''aaa''] [] [] []) fileBin
   \<and> CheckQueueErrors (exampleEnv False exampleLine [fileBin, bigBin] [''aaa''] [] [] [])
        1 500 False [bigBin] = []
   \<and> uploadLoop (exampleEnv False exampleLine [fileBin, bigBin] [''aaa''] [] [] [])
        (Some {''bbb''}) [fileBin, bigBin] ([], [])
      = uploadLoop (exampleEnv False exampleLine [fileBin, bigBin] [''aaa''] [] [] [])
        (Some {''bbb''}) [fileBin] ([], [])"
  using C3_skipset_exact [OF scenarioB_check refl, of "[fileBin, bigBin]" "([], [])"]
    scenarioB_check
  by (simp add: exampleEnv_def locallyMissing_def bigBin_def fileBin_def)

text \<open>
  Claim C10. When the reconciler returns an error, the skip-set it returns is the nil map,
  in which no oid is found: the set of locally missing oids it had built is not returned.
  The command, not in a dry run, then ends in \<open>Panic\<close> with the error's text, without
  entering the upload loop.
\<close>

theorem C10_error_means_nil_skipset:
  assumes "prePushCheckForMissingObjects env pointers log0 = (skipObjects, Some e, log)"
  shows "skipObjects = None \<and> \<not> inSkip skipObjects oid
     \<and> (\<not> prePushDryRun env \<longrightarrow>
          pushPointers env pointers log0
            = (PanicCall (errorsNew ''Missing objects to push'') (errorText e), log))"
  using assms
  by (auto simp: pushPointers_def preflight_def prePushCheck_eq Let_def split: if_splits)

theorem C10_error_means_nil_skipset_witness:
  "fst (snd (prePushCheckForMissingObjects
        (exampleEnv False exampleLine [bigBin, goneBin] [] [''ccc''] [] [])
        [bigBin, goneBin] [])) \<noteq> None
   \<and> fst (prePushCheckForMissingObjects
        (exampleEnv False exampleLine [bigBin, goneBin] [] [''ccc''] [] [])
        [bigBin, goneBin] []) = None
   \<and> \<not> inSkip (fst (prePushCheckForMissingObjects
        (exampleEnv False exampleLine [bigBin, goneBin] [] [''ccc''] [] [])
        [bigBin, goneBin] [])) ''bbb''"
proof -
  let ?env = "exampleEnv False exampleLine [bigBin, goneBin] [] [''ccc''] [] [] :: string env"
  obtain s e l where r: "prePushCheckForMissingObjects ?env [bigBin, goneBin] [] = (s, e, l)"
    by (cases "prePushCheckForMissingObjects ?env [bigBin, goneBin] []") auto
  have "e \<noteq> None"
    using r by (auto simp: prePushCheck_eq Let_def exampleEnv_def locallyMissing_def
        bigBin_def goneBin_def split: if_splits)
  then obtain e' where e: "e = Some e'" by auto
  from C10_error_means_nil_skipset [OF r [unfolded e], of "''bbb''"] r e
  show ?thesis by simp
qed

subsection \<open>Claims about the dry run\<close>

lemma pushPointers_dry:
  "prePushDryRun env \<Longrightarrow>
   pushPointers env pointers log0 =
     (Return, log0 @ [EvNewUploadQueue (length pointers) (sum_list (map Size pointers)) True]
                @ map (\<lambda>p. EvPrint ''push %s'' [Name p]) pointers)"
  by (simp add: pushPointers_def preflight_def uploadLoop_dry totalSizeLoop_eq)

lemma scanPhase_ended_log:
  "scanPhase env args = Inl (ended, lg) \<Longrightarrow>
   \<not> list_ex isLocalCheck lg \<and> \<not> list_ex isRemoteCheck lg \<and> \<not> list_ex isUploadJob lg"
  by (auto simp: scanPhase_def split: list.splits sum.splits if_splits prod.splits)

lemma dry_run_log:
  assumes "prePushDryRun env"
  shows "\<not> list_ex isLocalCheck (snd (prePushCommand env args))
       \<and> \<not> list_ex isRemoteCheck (snd (prePushCommand env args))
       \<and> \<not> list_ex isUploadJob (snd (prePushCommand env args))"
proof (cases "scanPhase env args")
  case (Inl e)
  then show ?thesis
    using scanPhase_ended_log [of env args "fst e" "snd e"]
    by (simp add: prePushCommand_def)
next
  case (Inr r)
  obtain pointers log0 where r: "r = (pointers, log0)" by (cases r)
  from scanPhase_log [OF Inr [unfolded r]] obtain remote left right
    where "log0 = [EvSetCurrentRemote remote, EvReadStdin, EvScanRefs left right]" by blast
  then show ?thesis
    using Inr r pushPointers_dry [OF assms, of pointers log0]
    by (auto simp: prePushCommand_def list_ex_iff)
qed

text \<open>
  Claim C7. In a dry run the log of the command holds no call of the local existence check,
  no event of a check queue, and no construction or submission of an upload job, however
  the run ends. When the scanner returns pointers, the command returns normally and the
  log after the scan is the creation of the upload queue (in dry-run mode, jobs are never
  added to it) followed by one notice \<open>Print("push %s", name)\<close> for each pointer, in
  order: as many notices as pointers. The notice reads \<open>push\<close>, a space, and the name.
\<close>

theorem C7_dry_run:
  assumes "prePushDryRun env"
  shows "\<not> list_ex isLocalCheck (snd (prePushCommand env args))
     \<and> \<not> list_ex isRemoteCheck (snd (prePushCommand env args))
     \<and> \<not> list_ex isUploadJob (snd (prePushCommand env args))
     \<and> (scanPhase env args = Inr (pointers, log0) \<longrightarrow>
          prePushCommand env args =
            (Return,
             log0 @ [EvNewUploadQueue (length pointers) (sum_list (map Size pointers)) True]
               @ map (\<lambda>p. EvPrint ''push %s'' [Name p]) pointers)
          \<and> filter isNotice (snd (prePushCommand env args))
              = map (\<lambda>p. EvPrint ''push %s'' [Name p]) pointers
          \<and> length (filter isNotice (snd (prePushCommand env args))) = length pointers)
     \<and> Sprintf ''push %s'' [name] = ''push '' @ name"
proof -
  have run: "prePushCommand env args =
            (Return,
             log0 @ [EvNewUploadQueue (length pointers) (sum_list (map Size pointers)) True]
               @ map (\<lambda>p. EvPrint ''push %s'' [Name p]) pointers)"
    and notices: "filter isNotice (snd (prePushCommand env args))
              = map (\<lambda>p. EvPrint ''push %s'' [Name p]) pointers"
    if scan: "scanPhase env args = Inr (pointers, log0)"
  proof -
    show run: "prePushCommand env args =
            (Return,
             log0 @ [EvNewUploadQueue (length pointers) (sum_list (map Size pointers)) True]
               @ map (\<lambda>p. EvPrint ''push %s'' [Name p]) pointers)"
      using prePushCommand_scanned [OF scan] pushPointers_dry [OF assms] by simp
    from scanPhase_log [OF scan] obtain remote left right
      where "log0 = [EvSetCurrentRemote remote, EvReadStdin, EvScanRefs left right]" by blast
    then show "filter isNotice (snd (prePushCommand env args))
              = map (\<lambda>p. EvPrint ''push %s'' [Name p]) pointers"
      by (simp add: run filter_map comp_def)
  qed
  have len: "length (filter isNotice (snd (prePushCommand env args))) = length pointers"
    if scan: "scanPhase env args = Inr (pointers, log0)"
    using notices [OF scan] by simp
  have fmt: "Sprintf ''push %s'' [name] = ''push '' @ name" by simp
  from dry_run_log [OF assms, of args] run notices len fmt show ?thesis by blast
qed

theorem C7_dry_run_witness:
  "prePushDryRun (exampleEnv True exampleLine [fileBin, bigBin] [''aaa''] [''bbb''] [] [])
   \<and> prePushCommand (exampleEnv True exampleLine [fileBin, bigBin] [''aaa''] [''bbb''] [] [])
        [''origin'', ''url'']
      = (Return,
         [EvSetCurrentRemote ''origin'', EvReadStdin, EvScanRefs ''abc123'' ''^def456'',
          EvNewUploadQueue 2 600 True,
          EvPrint ''push %s'' [''file.bin''], EvPrint ''push %s'' [''big.bin'']])
   \<and> length (filter isNotice (snd (prePushCommand
        (exampleEnv True exampleLine [fileBin, bigBin] [''aaa''] [''bbb''] [] [])
        [''origin'', ''url'']))) = 2
   \<and> Sprintf ''push %s'' [''big.bin''] = ''push big.bin''"
  using C7_dry_run [of "exampleEnv True exampleLine [fileBin, bigBin] [''aaa''] [''bbb''] [] []"
      "[''origin'', ''url'']" "[fileBin, bigBin]"
      "[EvSetCurrentRemote ''origin'', EvReadStdin, EvScanRefs ''abc123'' ''^def456'']"
      "''big.bin''"]
    example_scan [of True "[fileBin, bigBin]" "[''aaa'']" "[''bbb'']" "[]" "[]"]
  by (simp add: exampleEnv_def fileBin_def bigBin_def)

lemma uploadLoop_log_prefix:
  "uploadLoop env skip ps (jobs, lg) = (r, jobs', lg') \<Longrightarrow> prefix lg lg'"
proof (induction env skip ps "(jobs, lg)" arbitrary: jobs lg rule: uploadLoop.induct)
  case (1 env skipObjects jobs log)
  then show ?case by simp
next
  case (2 env skipObjects pointer rest jobs log)
  then show ?case
    by (auto split: if_splits sum.splits error.splits dest: append_prefixD)
qed

lemma reportErrors_prefix: "prefix lg (reportErrors env errs lg)"
  by (simp add: reportErrors_eq)

lemma pushPointers_log_prefix:
  "prefix (snd (snd (preflight env pointers log0))) (snd (pushPointers env pointers log0))"
proof -
  obtain skip err log1 where pf: "preflight env pointers log0 = (skip, err, log1)"
    by (cases "preflight env pointers log0") auto
  show ?thesis
  proof (cases err)
    case (Some e)
    with pf show ?thesis by (simp add: pushPointers_def)
  next
    case None
    obtain r jobs log2 where ul: "uploadLoop env skip pointers
        ([], log1 @ [EvNewUploadQueue (length pointers) (totalSizeLoop pointers 0) (prePushDryRun env)])
        = (r, jobs, log2)"
      by (metis prod_cases3)
    from uploadLoop_log_prefix [OF ul] have p: "prefix log1 log2" by (rule append_prefixD)
    then have "prefix log1 (reportErrors env errs (log2 @ [EvUploadQueueWait]))" for errs
      by (simp add: reportErrors_eq prefix_prefix)
    with p pf None ul show ?thesis
      by (cases r) (auto simp: pushPointers_def Let_def)
  qed
qed

lemma prePushCheck_queue_flag:
  "EvNewCheckQueue n sz d \<in> set (snd (snd (prePushCheckForMissingObjects env pointers log0)))
   \<Longrightarrow> EvNewCheckQueue n sz d \<in> set log0 \<or> d = False"
  by (auto simp: prePushCheck_eq Let_def split: if_splits)

lemma locallyMissing_ignores_dry_run:
  "locallyMissing (env\<lparr>prePushDryRun := b\<rparr>) = locallyMissing env"
  by (rule ext) (simp add: locallyMissing_def)

lemma prePushCheck_ignores_dry_run:
  "prePushCheckForMissingObjects (env\<lparr>prePushDryRun := b\<rparr>) pointers log0
     = prePushCheckForMissingObjects env pointers log0"
  by (simp add: prePushCheck_eq locallyMissing_ignores_dry_run)

lemma real_run_checks:
  assumes "\<not> prePushDryRun env" "scanPhase env args = Inr (pointers, log0)"
    and "missing = filter (locallyMissing env) pointers" "missing \<noteq> []"
  shows "EvNewCheckQueue (length missing) (sum_list (map Size missing)) False
           \<in> set (snd (prePushCommand env args))"
proof -
  have "EvNewCheckQueue (length missing) (sum_list (map Size missing)) False
          \<in> set (snd (snd (preflight env pointers log0)))"
    using assms(1,3,4) by (simp add: preflight_def prePushCheck_eq Let_def)
  with pushPointers_log_prefix [of env pointers log0]
  have "EvNewCheckQueue (length missing) (sum_list (map Size missing)) False
          \<in> set (snd (pushPointers env pointers log0))"
    by (auto simp: prefix_def)
  with prePushCommand_scanned [OF assms(2)] show ?thesis by simp
qed

text \<open>
  Claim C2, as the code has it. The reconciler does not read the dry-run flag: it returns
  the same for either value of the flag, and every check queue it creates is created with
  the dry-run argument \<open>false\<close>. A run that is not a dry run and has a locally missing
  pointer creates that queue. The command itself calls the reconciler only when the push
  is not a dry run (line 86): in a dry run the log holds no event of a check queue.
\<close>

theorem C2_check_queue_flag:
  "prePushCheckForMissingObjects (env\<lparr>prePushDryRun := b\<rparr>) pointers log0
     = prePushCheckForMissingObjects env pointers log0
   \<and> (EvNewCheckQueue n sz d \<in> set (snd (snd (prePushCheckForMissingObjects env pointers log0)))
        \<and> EvNewCheckQueue n sz d \<notin> set log0 \<longrightarrow> d = False)
   \<and> (\<not> prePushDryRun env \<and> scanPhase env args = Inr (pointers, log0)
        \<and> filter (locallyMissing env) pointers \<noteq> [] \<longrightarrow>
        EvNewCheckQueue (length (filter (locallyMissing env) pointers))
            (sum_list (map Size (filter (locallyMissing env) pointers))) False
          \<in> set (snd (prePushCommand env args)))
   \<and> (prePushDryRun env \<longrightarrow> \<not> list_ex isRemoteCheck (snd (prePushCommand env args)))"
  using prePushCheck_ignores_dry_run [where env = env and b = b]
    prePushCheck_queue_flag [where env = env and pointers = pointers and d = d]
    real_run_checks [where env = env and args = args, OF _ _ refl]
    dry_run_log [where env = env and args = args]
  by blast

text \<open>
  Claim C2 as stated fails: a dry run whose only pointer is locally missing prints its
  notice and returns, and no remote existence check is executed.
\<close>

theorem C2_dry_run_skips_check_counterexample:
  "prePushDryRun (exampleEnv True exampleLine [bigBin] [] [] [] [])
   \<and> locallyMissing (exampleEnv True exampleLine [bigBin] [] [] [] []) bigBin
   \<and> prePushCommand (exampleEnv True exampleLine [bigBin] [] [] [] []) [''origin'', ''url'']
      = (Return,
         [EvSetCurrentRemote ''origin'', EvReadStdin, EvScanRefs ''abc123'' ''^def456'',
          EvNewUploadQueue 1 500 True, EvPrint ''push %s'' [''big.bin'']])
   \<and> \<not> list_ex isRemoteCheck
        (snd (prePushCommand (exampleEnv True exampleLine [bigBin] [] [] [] [])
               [''origin'', ''url'']))"
proof -
  have d: "prePushDryRun (exampleEnv True exampleLine [bigBin] [] [] [] [])"
    by (simp add: exampleEnv_def)
  have "prePushCommand (exampleEnv True exampleLine [bigBin] [] [] [] []) [''origin'', ''url'']
      = (Return,
         [EvSetCurrentRemote ''origin'', EvReadStdin, EvScanRefs ''abc123'' ''^def456'',
          EvNewUploadQueue 1 500 True, EvPrint ''push %s'' [''big.bin'']])"
    using prePushCommand_scanned [OF example_scan] pushPointers_dry [OF d]
    by (simp add: bigBin_def)
  then show ?thesis
    by (simp add: exampleEnv_def locallyMissing_def)
qed

theorem C2_check_queue_flag_witness:
  "prePushCheckForMissingObjects
       ((exampleEnv False exampleLine [bigBin] [] [] [] [])\<lparr>prePushDryRun := True\<rparr>)
       [bigBin] ([] :: string event list)
     = (Some {''bbb''}, None,
        [EvObjectExistsOfSize ''bbb'' 500, EvNewCheckQueue 1 500 False,
         EvCheckQueueAdd bigBin, EvCheckQueueWait])
   \<and> EvNewCheckQueue 1 500 False
        \<in> set (snd (prePushCommand (exampleEnv False exampleLine [bigBin] [] [] [] [])
                    [''origin'', ''url'']))
   \<and> \<not> list_ex isRemoteCheck
        (snd (prePushCommand (exampleEnv True exampleLine [bigBin] [] [] [] [])
               [''origin'', ''url'']))"
proof -
  let ?real = "exampleEnv False exampleLine [bigBin] [] [] [] [] :: string env"
  let ?dry = "exampleEnv True exampleLine [bigBin] [] [] [] [] :: string env"
  let ?scanlog = "[EvSetCurrentRemote ''origin'', EvReadStdin,
                   EvScanRefs ''abc123'' ''^def456''] :: string event list"
  have chk: "prePushCheckForMissingObjects ?real [bigBin] ([] :: string event list)
     = (Some {''bbb''}, None,
        [EvObjectExistsOfSize ''bbb'' 500, EvNewCheckQueue 1 500 False,
         EvCheckQueueAdd bigBin, EvCheckQueueWait])"
    by (simp add: prePushCheck_eq Let_def exampleEnv_def locallyMissing_def bigBin_def)
  have miss: "filter (locallyMissing ?real) [bigBin] = [bigBin]"
    by (simp add: exampleEnv_def locallyMissing_def)
  have r: "\<not> prePushDryRun ?real" and d: "prePushDryRun ?dry"
    by (simp_all add: exampleEnv_def)
  from C2_check_queue_flag [where env = ?real and b = True and pointers = "[bigBin]"
        and ?log0.0 = "[]" and n = 1 and sz = 500 and d = False and args = "[''origin'', ''url'']"]
    C2_check_queue_flag [where env = ?real and b = True and pointers = "[bigBin]"
        and ?log0.0 = ?scanlog and n = 1 and sz = 500 and d = False
        and args = "[''origin'', ''url'']"]
    C2_check_queue_flag [where env = ?dry and b = True and pointers = "[bigBin]"
        and ?log0.0 = ?scanlog and n = 1 and sz = 500 and d = False
        and args = "[''origin'', ''url'']"]
    chk miss r d example_scan [of False "[bigBin]" "[]" "[]" "[]" "[]"]
  show ?thesis by (simp add: bigBin_def)
qed

subsection \<open>Claims about the upload loop and the exit status\<close>

lemma uploadLoop_added:
  "\<not> prePushDryRun env \<Longrightarrow> uploadLoop env skip ps (jobs, lg) = (r, jobs', lg') \<Longrightarrow>
   \<exists>added. lg' = lg @ added \<and>
     (\<forall>ev \<in> set added. \<not> isNotice ev \<and>
        (\<forall>oid nm. ev = EvNewUploadable oid nm \<longrightarrow> \<not> inSkip skip oid))"
proof (induction env skip ps "(jobs, lg)" arbitrary: jobs lg rule: uploadLoop.induct)
  case (1 env skipObjects jobs log)
  then show ?case by simp
next
  case (2 env skipObjects pointer rest jobs log)
  show ?case
  proof (cases "inSkip skipObjects (Oid pointer)")
    case True
    with 2 show ?thesis by simp
  next
    case False
    show ?thesis
    proof (cases "NewUploadable env (Oid pointer) (Name pointer)")
      case (Inl wErr)
      with False 2(4,5) have "lg' = log @ [EvNewUploadable (Oid pointer) (Name pointer)]"
        by (auto split: error.splits if_splits)
      with False show ?thesis by simp
    next
      case (Inr u)
      with False 2(4,5) have "uploadLoop env skipObjects rest
          (jobs @ [u], log @ [EvNewUploadable (Oid pointer) (Name pointer), EvUploadQueueAdd u])
          = (r, jobs', lg')" by simp
      from 2(3) [OF 2(4) False Inr 2(4) this] obtain added where
        a: "lg' = (log @ [EvNewUploadable (Oid pointer) (Name pointer), EvUploadQueueAdd u]) @ added"
        and b: "\<forall>ev \<in> set added. \<not> isNotice ev \<and>
                 (\<forall>oid nm. ev = EvNewUploadable oid nm \<longrightarrow> \<not> inSkip skipObjects oid)"
        by blast
      let ?added = "[EvNewUploadable (Oid pointer) (Name pointer), EvUploadQueueAdd u] @ added"
      have "lg' = log @ ?added" using a by simp
      moreover have "\<forall>ev \<in> set ?added. \<not> isNotice ev \<and>
                 (\<forall>oid nm. ev = EvNewUploadable oid nm \<longrightarrow> \<not> inSkip skipObjects oid)"
        using b False by auto
      ultimately show ?thesis by blast
    qed
  qed
qed

lemma preflight_dry:
  "prePushDryRun env \<Longrightarrow> preflight env pointers log0 = (None, None, log0)"
  by (simp add: preflight_def)

lemma pushPointers_skipped:
  assumes pf: "preflight env pointers log0 = (skipObjects, None, log1)"
  shows "\<exists>rest. snd (pushPointers env pointers log0)
            = log1 @ EvNewUploadQueue (length pointers) (sum_list (map Size pointers))
                       (prePushDryRun env) # rest
          \<and> (\<forall>oid name. inSkip skipObjects oid \<longrightarrow> EvNewUploadable oid name \<notin> set rest)
          \<and> (\<not> prePushDryRun env \<longrightarrow> \<not> list_ex isNotice rest)"
proof (cases "prePushDryRun env")
  case True
  with pf have "skipObjects = None" "log1 = log0" by (simp_all add: preflight_def)
  with True pushPointers_dry [OF True, of pointers log0] show ?thesis by auto
next
  case False
  let ?q = "EvNewUploadQueue (length pointers) (sum_list (map Size pointers)) False"
  obtain r jobs log2 where ul: "uploadLoop env skipObjects pointers ([], log1 @ [?q])
        = (r, jobs, log2)"
    by (metis prod_cases3)
  from uploadLoop_added [OF False ul] obtain added where
    a: "log2 = (log1 @ [?q]) @ added"
    and b: "\<forall>ev \<in> set added. \<not> isNotice ev \<and>
                 (\<forall>oid nm. ev = EvNewUploadable oid nm \<longrightarrow> \<not> inSkip skipObjects oid)"
    by blast
  let ?errs = "UploadQueueErrors env (length pointers) (sum_list (map Size pointers)) False jobs"
  let ?tail = "EvUploadQueueWait # map (reportEvent env) ?errs"
  have t: "\<forall>ev \<in> set ?tail. \<not> isNotice ev \<and> (\<forall>oid nm. ev \<noteq> EvNewUploadable oid nm)"
    by (auto simp: reportEvent_def)
  have "snd (pushPointers env pointers log0) = log1 @ ?q # added
      \<or> snd (pushPointers env pointers log0) = log1 @ ?q # (added @ ?tail)"
    using pf ul False a
    by (cases r) (auto simp: pushPointers_def Let_def totalSizeLoop_eq reportErrors_eq)
  then show ?thesis
  proof
    assume "snd (pushPointers env pointers log0) = log1 @ ?q # added"
    with b False show ?thesis
      by (intro exI [of _ added]) (auto simp: list_ex_iff)
  next
    assume "snd (pushPointers env pointers log0) = log1 @ ?q # (added @ ?tail)"
    moreover have "\<forall>oid name. inSkip skipObjects oid \<longrightarrow>
                     EvNewUploadable oid name \<notin> set (added @ ?tail)"
      using b by (auto simp: reportEvent_def)
    moreover have "\<not> list_ex isNotice (added @ ?tail)"
      using b t by (auto simp: list_ex_iff)
    ultimately show ?thesis using False
      by (intro exI [of _ "added @ ?tail"]) simp
  qed
qed

text \<open>
  Claim C6. Let the pre-flight check of a run return the skip-set without error. A pointer
  whose oid is in the skip-set leaves the upload loop's state as it was, the list of
  submitted jobs and the log alike, and the loop goes on with the next pointer: no job, no
  error, no notice. So the loop does on all pointers what it does on those whose oid is not
  in the set, and after the creation of the upload queue the log of the command holds no
  job construction for an oid of the set, and no notice at all unless the run is a dry run
  (where the set is the nil map). The total size is the sum of the sizes of all pointers,
  each counted once, in 64-bit arithmetic; it and the number of all pointers are what the
  upload queue is created with.
\<close>

theorem C6_skipped_pointers:
  assumes "scanPhase env args = Inr (pointers, log0)"
    and "preflight env pointers log0 = (skipObjects, None, log1)"
  shows "(inSkip skipObjects (Oid pointer) \<longrightarrow>
            uploadLoop env skipObjects (pointer # rest) (jobs, log)
              = uploadLoop env skipObjects rest (jobs, log))
     \<and> uploadLoop env skipObjects ps st
          = uploadLoop env skipObjects (filter (\<lambda>p. \<not> inSkip skipObjects (Oid p)) ps) st
     \<and> totalSizeLoop pointers 0 = sum_list (map Size pointers)
     \<and> (\<exists>events. snd (prePushCommand env args)
            = log1 @ EvNewUploadQueue (length pointers) (sum_list (map Size pointers))
                       (prePushDryRun env) # events
          \<and> (\<forall>oid name. inSkip skipObjects oid \<longrightarrow> EvNewUploadable oid name \<notin> set events)
          \<and> (\<not> prePushDryRun env \<longrightarrow> \<not> list_ex isNotice events))"
proof -
  have dry: "skipObjects = None" if "prePushDryRun env"
    using that assms(2) by (simp add: preflight_def)
  have one: "uploadLoop env skipObjects (pointer # rest) (jobs, log)
              = uploadLoop env skipObjects rest (jobs, log)"
    if "inSkip skipObjects (Oid pointer)"
  proof -
    from that dry have "\<not> prePushDryRun env" by auto
    with that show ?thesis by simp
  qed
  have all: "uploadLoop env skipObjects ps st
          = uploadLoop env skipObjects (filter (\<lambda>p. \<not> inSkip skipObjects (Oid p)) ps) st"
  proof (cases "prePushDryRun env")
    case True
    with dry show ?thesis by simp
  next
    case False
    then show ?thesis by (rule uploadLoop_filter)
  qed
  have total: "totalSizeLoop pointers 0 = sum_list (map Size pointers)"
    by (simp add: totalSizeLoop_eq)
  from one all total pushPointers_skipped [OF assms(2)] prePushCommand_scanned [OF assms(1)]
  show ?thesis by simp
qed

lemma scenarioB_preflight:
  "preflight (exampleEnv False exampleLine [fileBin, bigBin] [''aaa''] [] [] [])
      [fileBin, bigBin] log0
    = (Some {''bbb''}, None,
       log0 @ [EvObjectExistsOfSize ''aaa'' 100, EvObjectExistsOfSize ''bbb'' 500,
        EvNewCheckQueue 1 500 False, EvCheckQueueAdd bigBin, EvCheckQueueWait])"
  by (simp add: preflight_def prePushCheck_eq Let_def exampleEnv_def locallyMissing_def
        bigBin_def fileBin_def)

theorem C6_skipped_pointers_witness:
  "inSkip (Some {''bbb''}) (Oid bigBin)
   \<and> uploadLoop (exampleEnv False exampleLine [fileBin, bigBin] [''aaa''] [] [] [])
        (Some {''bbb''}) [bigBin, fileBin] ([], [])
      = uploadLoop (exampleEnv False exampleLine [fileBin, bigBin] [''aaa''] [] [] [])
        (Some {''bbb''}) [fileBin] ([], [])
   \<and> totalSizeLoop [fileBin, bigBin] 0 = 600
   \<and> prePushCommand (exampleEnv False exampleLine [fileBin, bigBin] [''aaa''] [] [] [])
        [''origin'', ''url'']
      = (Return,
         [EvSetCurrentRemote ''origin'', EvReadStdin, EvScanRefs ''abc123'' ''^def456'',
          EvObjectExistsOfSize ''aaa'' 100, EvObjectExistsOfSize ''bbb'' 500,
          EvNewCheckQueue 1 500 False, EvCheckQueueAdd bigBin, EvCheckQueueWait,
          EvNewUploadQueue 2 600 False,
          EvNewUploadable ''aaa'' ''file.bin'', EvUploadQueueAdd ''aaa'', EvUploadQueueWait])"
proof -
  let ?env = "exampleEnv False exampleLine [fileBin, bigBin] [''aaa''] [] [] [] :: string env"
  have run: "prePushCommand ?env [''origin'', ''url'']
      = (Return,
         [EvSetCurrentRemote ''origin'', EvReadStdin, EvScanRefs ''abc123'' ''^def456'',
          EvObjectExistsOfSize ''aaa'' 100, EvObjectExistsOfSize ''bbb'' 500,
          EvNewCheckQueue 1 500 False, EvCheckQueueAdd bigBin, EvCheckQueueWait,
          EvNewUploadQueue 2 600 False,
          EvNewUploadable ''aaa'' ''file.bin'', EvUploadQueueAdd ''aaa'', EvUploadQueueWait])"
    using prePushCommand_scanned [OF example_scan, of False "[fileBin, bigBin]" "[''aaa'']"
        "[]" "[]" "[]"]
    by (simp add: pushPointers_def Let_def scenarioB_preflight)
       (simp add: exampleEnv_def fileBin_def bigBin_def)
  from C6_skipped_pointers [OF example_scan scenarioB_preflight, of bigBin "[fileBin]" "[]" "[]"
      "[bigBin, fileBin]" "([], [])"] run
  show ?thesis by (simp add: bigBin_def fileBin_def)
qed

lemma uploadLoop_cleaned:
  assumes "\<not> prePushDryRun env" "\<not> inSkip skip (Oid p)"
    and "NewUploadable env (Oid p) (Name p) = Inl wErr"
    and "Err wErr = CleanedPointerError cleanOid txt"
  shows "uploadLoop env skip (p # other) (jobs, lg) =
           (Some (ExitCall prePushMissingErrMsg [Name p, cleanOid]), jobs,
            lg @ [EvNewUploadable (Oid p) (Name p)])"
  using assms by simp

text \<open>
  Claim C4. In a run that is not a dry run, let the upload loop reach a pointer whose oid is
  not in the skip-set, and let the construction of its upload job fail with an error whose
  cause is a \<open>CleanedPointerError\<close>. Then the command ends there, in the call
  \<open>Exit(prePushMissingErrMsg, pointer.Name, cleanPointerErr.Pointer.Oid)\<close>: the message is
  the missing-object template filled with the pointer's name and the oid the error
  carries. The log ends with that construction, whatever pointers follow: none of them is
  processed, and the upload queue is not waited for.
\<close>

theorem C4_never_produced_content_stops:
  assumes "scanPhase env args = Inr (before @ pointer # after, log0)"
    and "\<not> prePushDryRun env"
    and "preflight env (before @ pointer # after) log0 = (skipObjects, None, log1)"
    and "uploadLoop env skipObjects before
           ([], log1 @ [EvNewUploadQueue (length (before @ pointer # after))
                          (sum_list (map Size (before @ pointer # after))) False])
         = (None, jobs, log2)"
    and "\<not> inSkip skipObjects (Oid pointer)"
    and "NewUploadable env (Oid pointer) (Name pointer) = Inl wErr"
    and "Err wErr = CleanedPointerError cleanOid txt"
  shows "prePushCommand env args =
           (ExitCall prePushMissingErrMsg [Name pointer, cleanOid],
            log2 @ [EvNewUploadable (Oid pointer) (Name pointer)])
     \<and> Sprintf prePushMissingErrMsg [Name pointer, cleanOid]
          = missingObjectMsg (Name pointer) cleanOid
     \<and> uploadLoop env skipObjects (pointer # other) (jobs, log2) =
           (Some (ExitCall prePushMissingErrMsg [Name pointer, cleanOid]), jobs,
            log2 @ [EvNewUploadable (Oid pointer) (Name pointer)])"
proof -
  have stop: "uploadLoop env skipObjects (pointer # rest) (jobs, log2) =
           (Some (ExitCall prePushMissingErrMsg [Name pointer, cleanOid]), jobs,
            log2 @ [EvNewUploadable (Oid pointer) (Name pointer)])" for rest
    using assms(2,5,6,7) by (rule uploadLoop_cleaned)
  have "uploadLoop env skipObjects (before @ pointer # after)
           ([], log1 @ [EvNewUploadQueue (length (before @ pointer # after))
                          (sum_list (map Size (before @ pointer # after))) False])
        = (Some (ExitCall prePushMissingErrMsg [Name pointer, cleanOid]), jobs,
            log2 @ [EvNewUploadable (Oid pointer) (Name pointer)])"
    using uploadLoop_append [OF assms(4), of "pointer # after"] stop by simp
  with assms(2,3) have "pushPointers env (before @ pointer # after) log0 =
           (ExitCall prePushMissingErrMsg [Name pointer, cleanOid],
            log2 @ [EvNewUploadable (Oid pointer) (Name pointer)])"
    by (simp add: pushPointers_def Let_def totalSizeLoop_eq)
  with prePushCommand_scanned [OF assms(1)] stop Sprintf_missing show ?thesis by simp
qed

lemma example_all_local_preflight:
  "set (map Oid ps) \<subseteq> set locals \<Longrightarrow>
   preflight (exampleEnv False exampleLine ps locals absent cleaned failing) ps log0
    = (None, None, log0 @ map (\<lambda>p. EvObjectExistsOfSize (Oid p) (Size p)) ps)"
proof -
  assume a: "set (map Oid ps) \<subseteq> set locals"
  have "filter (locallyMissing (exampleEnv False exampleLine ps locals absent cleaned failing)) ps = []"
    using a by (auto simp: filter_empty_conv locallyMissing_def exampleEnv_def)
  then show ?thesis
    by (simp add: preflight_def prePushCheck_eq Let_def) (simp add: exampleEnv_def)
qed

theorem C4_never_produced_content_stops_witness:
  "NewUploadable (exampleEnv False exampleLine [fileBin, goneBin, bigBin]
        [''aaa'', ''bbb'', ''ccc''] [] [''ccc''] []) (Oid goneBin) (Name goneBin)
     = Inl (cleanedError ''ccc'')
   \<and> prePushCommand (exampleEnv False exampleLine [fileBin, goneBin, bigBin]
        [''aaa'', ''bbb'', ''ccc''] [] [''ccc''] []) [''origin'', ''url'']
     = (ExitCall prePushMissingErrMsg [''gone.bin'', ''ccc''],
        [EvSetCurrentRemote ''origin'', EvReadStdin, EvScanRefs ''abc123'' ''^def456'',
         EvObjectExistsOfSize ''aaa'' 100, EvObjectExistsOfSize ''ccc'' 10,
         EvObjectExistsOfSize ''bbb'' 500,
         EvNewUploadQueue 3 610 False,
         EvNewUploadable ''aaa'' ''file.bin'', EvUploadQueueAdd ''aaa'',
         EvNewUploadable ''ccc'' ''gone.bin''])
   \<and> Sprintf prePushMissingErrMsg [''gone.bin'', ''ccc'']
     = ''gone.bin is an LFS pointer to ccc, which does not exist in .git/lfs/objects.''
        @ [CHR 0x0A, CHR 0x0A] @ ''Run '' @ [CHR 0x27] @ ''git lfs fsck'' @ [CHR 0x27]
        @ '' to verify Git LFS objects.''"
proof -
  let ?env = "exampleEnv False exampleLine [fileBin, goneBin, bigBin]
        [''aaa'', ''bbb'', ''ccc''] [] [''ccc''] [] :: string env"
  let ?log0 = "[EvSetCurrentRemote ''origin'', EvReadStdin,
                EvScanRefs ''abc123'' ''^def456''] :: string event list"
  have scan: "scanPhase ?env [''origin'', ''url''] = Inr ([fileBin] @ goneBin # [bigBin], ?log0)"
    using example_scan [of False "[fileBin, goneBin, bigBin]"] by simp
  have dry: "\<not> prePushDryRun ?env" by (simp add: exampleEnv_def)
  have pf: "preflight ?env ([fileBin] @ goneBin # [bigBin]) ?log0
     = (None, None, ?log0 @ [EvObjectExistsOfSize ''aaa'' 100, EvObjectExistsOfSize ''ccc'' 10,
         EvObjectExistsOfSize ''bbb'' 500])"
    using example_all_local_preflight [of "[fileBin, goneBin, bigBin]"
        "[''aaa'', ''bbb'', ''ccc'']" "[]" "[''ccc'']" "[]" ?log0]
    by (simp add: fileBin_def goneBin_def bigBin_def)
  have ul: "uploadLoop ?env None [fileBin]
       ([], (?log0 @ [EvObjectExistsOfSize ''aaa'' 100, EvObjectExistsOfSize ''ccc'' 10,
         EvObjectExistsOfSize ''bbb'' 500])
            @ [EvNewUploadQueue (length ([fileBin] @ goneBin # [bigBin]))
                 (sum_list (map Size ([fileBin] @ goneBin # [bigBin]))) False])
     = (None, [''aaa''],
        ?log0 @ [EvObjectExistsOfSize ''aaa'' 100, EvObjectExistsOfSize ''ccc'' 10,
         EvObjectExistsOfSize ''bbb'' 500, EvNewUploadQueue 3 610 False,
         EvNewUploadable ''aaa'' ''file.bin'', EvUploadQueueAdd ''aaa''])"
    by (simp add: exampleEnv_def fileBin_def goneBin_def bigBin_def)
  have fail: "NewUploadable ?env (Oid goneBin) (Name goneBin) = Inl (cleanedError ''ccc'')"
    by (simp add: exampleEnv_def goneBin_def)
  have cause: "Err (cleanedError ''ccc'') = CleanedPointerError ''ccc'' ''cleaned pointer''"
    by (simp add: cleanedError_def)
  from C4_never_produced_content_stops [OF scan dry pf ul _ fail cause, of "[]"] fail
  show ?thesis
    by (simp add: goneBin_def missingObjectMsg_def)
qed

lemma uploadLoop_stopped:
  "uploadLoop env skip ps (jobs, lg) = (Some stopped, jobs', lg') \<Longrightarrow>
   exitStatus stopped = None"
proof (induction env skip ps "(jobs, lg)" arbitrary: jobs lg rule: uploadLoop.induct)
  case (1 env skipObjects jobs log)
  then show ?case by simp
next
  case (2 env skipObjects pointer rest jobs log)
  then show ?case
    by (auto split: if_splits sum.splits error.splits)
qed

lemma pushPointers_status:
  "exitStatus (fst (pushPointers env pointers log0)) \<noteq> Some 1"
proof -
  obtain skip err log1 where pf: "preflight env pointers log0 = (skip, err, log1)"
    by (cases "preflight env pointers log0") auto
  show ?thesis
  proof (cases err)
    case (Some e)
    with pf show ?thesis by (simp add: pushPointers_def)
  next
    case None
    obtain r jobs log2 where ul: "uploadLoop env skip pointers
        ([], log1 @ [EvNewUploadQueue (length pointers) (totalSizeLoop pointers 0) (prePushDryRun env)])
        = (r, jobs, log2)"
      by (metis prod_cases3)
    show ?thesis
    proof (cases r)
      case rNone: None
      with pf None ul show ?thesis by (simp add: pushPointers_def Let_def)
    next
      case (Some stopped)
      with uploadLoop_stopped ul have "exitStatus stopped = None" by blast
      with pf None ul Some show ?thesis by (simp add: pushPointers_def Let_def)
    qed
  qed
qed

lemma scanPhase_status:
  "scanPhase env args = Inl (ended, lg) \<Longrightarrow> (exitStatus ended = Some 1 \<longleftrightarrow> args = [])"
  by (auto simp: scanPhase_def split: list.splits sum.splits if_splits prod.splits)

lemma scanPhase_args: "scanPhase env args = Inr r \<Longrightarrow> args \<noteq> []"
  by (auto simp: scanPhase_def)

lemma exit_one_iff:
  "exitStatus (fst (prePushCommand env args)) = Some 1 \<longleftrightarrow> args = []"
proof (cases "scanPhase env args")
  case (Inl e)
  with scanPhase_status [of env args "fst e" "snd e"] show ?thesis
    by (simp add: prePushCommand_def)
next
  case (Inr r)
  with scanPhase_args [OF Inr] pushPointers_status [of env "fst r" "snd r"] show ?thesis
    by (simp add: prePushCommand_def split_beta)
qed

lemma pushPointers_drained:
  assumes "preflight env pointers log0 = (skipObjects, None, log1)"
    and "uploadLoop env skipObjects pointers
           ([], log1 @ [EvNewUploadQueue (length pointers) (sum_list (map Size pointers))
                          (prePushDryRun env)])
         = (None, jobs, log2)"
    and "errs = UploadQueueErrors env (length pointers) (sum_list (map Size pointers)) False jobs"
  shows "pushPointers env pointers log0 =
          (if prePushDryRun env then (Return, log2)
           else (if errs = [] then Return else OsExit 2,
                 log2 @ [EvUploadQueueWait] @ map (reportEvent env) errs))"
  using assms by (simp add: pushPointers_def Let_def totalSizeLoop_eq reportErrors_eq)

text \<open>
  Claim C5. With no command-line argument the command prints the usage message and calls
  \<open>os.Exit(1)\<close>, and nothing else happens; no other run has exit status 1. A dry run
  that gets pointers from the scanner returns normally, exit status 0. In a run that is
  not a dry run, once the pre-flight check and the upload loop have gone through, the
  command waits for the upload queue and reports every collected error, in order, each by
  \<open>LoggedError\<close> or \<open>Error\<close>; then it calls \<open>os.Exit(2)\<close> when the list of
  errors is not empty, and returns normally, exit status 0, when it is empty.
\<close>

theorem C5_exit_status:
  "prePushCommand env [] = (OsExit 1, [EvPrint usageMsg []])
   \<and> (exitStatus (fst (prePushCommand env args)) = Some 1 \<longleftrightarrow> args = [])
   \<and> (prePushDryRun env \<and> scanPhase env args = Inr (pointers, log0) \<longrightarrow>
        exitStatus (fst (prePushCommand env args)) = Some 0)
   \<and> (scanPhase env args = Inr (pointers, log0)
        \<and> preflight env pointers log0 = (skipObjects, None, log1)
        \<and> uploadLoop env skipObjects pointers
             ([], log1 @ [EvNewUploadQueue (length pointers) (sum_list (map Size pointers))
                            (prePushDryRun env)])
           = (None, jobs, log2)
        \<and> errs = UploadQueueErrors env (length pointers) (sum_list (map Size pointers))
                    False jobs
        \<and> \<not> prePushDryRun env \<longrightarrow>
        prePushCommand env args =
          (if errs = [] then Return else OsExit 2,
           log2 @ [EvUploadQueueWait] @ map (reportEvent env) errs)
        \<and> exitStatus (fst (prePushCommand env args)) = Some (if errs = [] then 0 else 2))"
proof (intro conjI impI)
  show "prePushCommand env [] = (OsExit 1, [EvPrint usageMsg []])"
    by (simp add: prePushCommand_def scanPhase_def)
  show "exitStatus (fst (prePushCommand env args)) = Some 1 \<longleftrightarrow> args = []"
    by (rule exit_one_iff)
next
  assume "prePushDryRun env \<and> scanPhase env args = Inr (pointers, log0)"
  then show "exitStatus (fst (prePushCommand env args)) = Some 0"
    using prePushCommand_scanned [of env args pointers log0]
      pushPointers_dry [of env pointers log0] by simp
next
  assume h: "scanPhase env args = Inr (pointers, log0)
        \<and> preflight env pointers log0 = (skipObjects, None, log1)
        \<and> uploadLoop env skipObjects pointers
             ([], log1 @ [EvNewUploadQueue (length pointers) (sum_list (map Size pointers))
                            (prePushDryRun env)])
           = (None, jobs, log2)
        \<and> errs = UploadQueueErrors env (length pointers) (sum_list (map Size pointers))
                    False jobs
        \<and> \<not> prePushDryRun env"
  then have scan: "scanPhase env args = Inr (pointers, log0)"
    and pf: "preflight env pointers log0 = (skipObjects, None, log1)"
    and ul: "uploadLoop env skipObjects pointers
             ([], log1 @ [EvNewUploadQueue (length pointers) (sum_list (map Size pointers))
                            (prePushDryRun env)])
           = (None, jobs, log2)"
    and errs: "errs = UploadQueueErrors env (length pointers) (sum_list (map Size pointers))
                    False jobs"
    and real: "\<not> prePushDryRun env"
    by blast+
  have run: "prePushCommand env args =
          (if errs = [] then Return else OsExit 2,
           log2 @ [EvUploadQueueWait] @ map (reportEvent env) errs)"
    unfolding prePushCommand_scanned [OF scan] pushPointers_drained [OF pf ul errs]
    using real by simp
  then show "prePushCommand env args =
          (if errs = [] then Return else OsExit 2,
           log2 @ [EvUploadQueueWait] @ map (reportEvent env) errs)" .
  from run show "exitStatus (fst (prePushCommand env args)) = Some (if errs = [] then 0 else 2)"
    by simp
qed

theorem C5_exit_status_witness:
  "prePushCommand (exampleEnv False exampleLine [fileBin, bigBin] [''aaa'', ''bbb''] [] []
        [''bbb'']) []
     = (OsExit 1, [EvPrint usageMsg []])
   \<and> exitStatus (fst (prePushCommand
        (exampleEnv True exampleLine [fileBin, bigBin] [''aaa'', ''bbb''] [] [] [''bbb''])
        [''origin'', ''url''])) = Some 0
   \<and> prePushCommand (exampleEnv False exampleLine [fileBin, bigBin] [''aaa'', ''bbb''] [] []
        [''bbb'']) [''origin'', ''url'']
     = (OsExit 2,
        [EvSetCurrentRemote ''origin'', EvReadStdin, EvScanRefs ''abc123'' ''^def456'',
         EvObjectExistsOfSize ''aaa'' 100, EvObjectExistsOfSize ''bbb'' 500,
         EvNewUploadQueue 2 600 False,
         EvNewUploadable ''aaa'' ''file.bin'', EvUploadQueueAdd ''aaa'',
         EvNewUploadable ''bbb'' ''big.bin'', EvUploadQueueAdd ''bbb'',
         EvUploadQueueWait, EvError ''upload failed: bbb''])
   \<and> prePushCommand (exampleEnv False exampleLine [fileBin, bigBin] [''aaa'', ''bbb''] [] []
        []) [''origin'', ''url'']
     = (Return,
        [EvSetCurrentRemote ''origin'', EvReadStdin, EvScanRefs ''abc123'' ''^def456'',
         EvObjectExistsOfSize ''aaa'' 100, EvObjectExistsOfSize ''bbb'' 500,
         EvNewUploadQueue 2 600 False,
         EvNewUploadable ''aaa'' ''file.bin'', EvUploadQueueAdd ''aaa'',
         EvNewUploadable ''bbb'' ''big.bin'', EvUploadQueueAdd ''bbb'',
         EvUploadQueueWait])"
proof -
  let ?ps = "[fileBin, bigBin]"
  let ?log0 = "[EvSetCurrentRemote ''origin'', EvReadStdin,
                EvScanRefs ''abc123'' ''^def456''] :: string event list"
  let ?log1 = "?log0 @ [EvObjectExistsOfSize ''aaa'' 100, EvObjectExistsOfSize ''bbb'' 500]"
  let ?log2 = "?log1 @ [EvNewUploadQueue 2 600 False,
         EvNewUploadable ''aaa'' ''file.bin'', EvUploadQueueAdd ''aaa'',
         EvNewUploadable ''bbb'' ''big.bin'', EvUploadQueueAdd ''bbb'']"
  have pf: "preflight (exampleEnv False exampleLine ?ps [''aaa'', ''bbb''] [] [] failing) ?ps ?log0
     = (None, None, ?log1)" for failing
    using example_all_local_preflight [of ?ps "[''aaa'', ''bbb'']" "[]" "[]" failing ?log0]
    by (simp add: fileBin_def bigBin_def)
  have ul: "uploadLoop (exampleEnv False exampleLine ?ps [''aaa'', ''bbb''] [] [] failing) None ?ps
       ([], ?log1 @ [EvNewUploadQueue (length ?ps) (sum_list (map Size ?ps))
          (prePushDryRun (exampleEnv False exampleLine ?ps [''aaa'', ''bbb''] [] [] failing))])
     = (None, [''aaa'', ''bbb''], ?log2)" for failing
    by (simp add: exampleEnv_def fileBin_def bigBin_def)
  have real: "\<not> prePushDryRun (exampleEnv False exampleLine ?ps [''aaa'', ''bbb''] [] [] failing)"
    for failing
    by (simp add: exampleEnv_def)
  have dry: "prePushDryRun (exampleEnv True exampleLine ?ps [''aaa'', ''bbb''] [] [] [''bbb''])"
    by (simp add: exampleEnv_def)
  note c5 = C5_exit_status [where args = "[''origin'', ''url'']" and pointers = ?ps
      and ?log0.0 = ?log0]
  note bad = c5 [where env = "exampleEnv False exampleLine ?ps [''aaa'', ''bbb''] [] [] [''bbb'']"
      and skipObjects = None and ?log1.0 = ?log1 and jobs = "[''aaa'', ''bbb'']"
      and ?log2.0 = ?log2, simplified example_scan pf ul real, simplified]
  note good = c5 [where env = "exampleEnv False exampleLine ?ps [''aaa'', ''bbb''] [] [] []"
      and skipObjects = None and ?log1.0 = ?log1 and jobs = "[''aaa'', ''bbb'']"
      and ?log2.0 = ?log2, simplified example_scan pf ul real, simplified]
  note dryrun = c5 [where env = "exampleEnv True exampleLine ?ps [''aaa'', ''bbb''] [] [] [''bbb'']",
      simplified example_scan dry, simplified]
  from bad good dryrun show ?thesis
    by (simp add: exampleEnv_def uploadError_def reportEvent_def fileBin_def bigBin_def)
qed

subsection \<open>Claim about the deletion of a branch\<close>

lemma deleteLine_refs:
  "decodeRefs deleteLine = (''0000000000000000000000000000000000000000'', ''^1a2b3c'')"
  unfolding deleteLine_def by code_simp

lemma sentinelSecond_refs:
  "decodeRefs ''refs/heads/topic (delete) refs/heads/topic 1a2b3c'' = (''(delete)'', ''^1a2b3c'')"
  by code_simp

text \<open>
  Claim C9 does not hold of the code. The command compares the sentinel \<open>(delete)\<close>
  with \<open>left\<close>, the second token of the line (the local sha1), not with the first (the
  local ref). On the line Git writes for a deleted branch, whose first token is the
  sentinel, the command calls the scanner with the range of forty zeros, checks the local
  store and submits an upload job. It is a no-op on a line whose second token is the
  sentinel.
\<close>

theorem C9_delete_push_is_scanned:
  "hd (Split (TrimSpace deleteLine) (CHR '' '')) = prePushDeleteBranch
   \<and> prePushCommand (exampleEnv False deleteLine [fileBin] [''aaa''] [] [] [])
        [''origin'', ''url'']
     = (Return,
        [EvSetCurrentRemote ''origin'', EvReadStdin,
         EvScanRefs ''0000000000000000000000000000000000000000'' ''^1a2b3c'',
         EvObjectExistsOfSize ''aaa'' 100, EvNewUploadQueue 1 100 False,
         EvNewUploadable ''aaa'' ''file.bin'', EvUploadQueueAdd ''aaa'', EvUploadQueueWait])
   \<and> prePushCommand
        (exampleEnv False ''refs/heads/topic (delete) refs/heads/topic 1a2b3c'' [fileBin]
           [''aaa''] [] [] [])
        [''origin'', ''url'']
     = (Return, [EvSetCurrentRemote ''origin'', EvReadStdin])"
proof -
  have first: "hd (Split (TrimSpace deleteLine) (CHR '' '')) = prePushDeleteBranch"
    unfolding deleteLine_def prePushDeleteBranch_def by code_simp
  have ne: "deleteLine \<noteq> []" by (simp add: deleteLine_def)
  have scan: "scanPhase (exampleEnv False deleteLine [fileBin] [''aaa''] [] [] [])
        [''origin'', ''url'']
     = Inr ([fileBin], [EvSetCurrentRemote ''origin'', EvReadStdin,
         EvScanRefs ''0000000000000000000000000000000000000000'' ''^1a2b3c''])"
    by (simp add: scanPhase_def exampleEnv_def deleteLine_refs ne prePushDeleteBranch_def)
  have run: "prePushCommand (exampleEnv False deleteLine [fileBin] [''aaa''] [] [] [])
        [''origin'', ''url'']
     = (Return,
        [EvSetCurrentRemote ''origin'', EvReadStdin,
         EvScanRefs ''0000000000000000000000000000000000000000'' ''^1a2b3c'',
         EvObjectExistsOfSize ''aaa'' 100, EvNewUploadQueue 1 100 False,
         EvNewUploadable ''aaa'' ''file.bin'', EvUploadQueueAdd ''aaa'', EvUploadQueueWait])"
    unfolding prePushCommand_scanned [OF scan]
    by (simp add: pushPointers_def preflight_def prePushCheck_eq Let_def locallyMissing_def
          exampleEnv_def fileBin_def)
  have noop: "prePushCommand
        (exampleEnv False ''refs/heads/topic (delete) refs/heads/topic 1a2b3c'' [fileBin]
           [''aaa''] [] [] [])
        [''origin'', ''url'']
     = (Return, [EvSetCurrentRemote ''origin'', EvReadStdin])"
    by (simp add: prePushCommand_def scanPhase_def exampleEnv_def sentinelSecond_refs
          prePushDeleteBranch_def)
  from first run noop show ?thesis by simp
qed

end
